theory Spec2Isabelle
  imports Complex_Main
begin

section \<open>Values and exceptions\<close>

text \<open>
  Python exceptions that the two modules can meet. \<open>HttpError\<close> is the Gmail client's
  error class, \<open>IndexError\<close> is what \<open>xs[0]\<close> raises on an empty list,
  \<open>OtherException\<close> stands for every other subclass of \<open>Exception\<close>, and
  \<open>BaseException\<close> for the exceptions that are not subclasses of \<open>Exception\<close>
  (KeyboardInterrupt, SystemExit), which \<open>except Exception\<close> does not catch.
\<close>

datatype exn = HttpError | IndexError | OtherException | BaseException

fun is_Exception :: "exn \<Rightarrow> bool" where
  "is_Exception BaseException = False"
| "is_Exception _ = True"

text \<open>
  A Python float as the classifier returns it: a number or NaN. Every comparison with NaN
  is false. The threshold literal \<open>0.95\<close> is read as the real number 0.95: the double
  nearest to it lies below it and no double lies strictly between, so \<open>p > 0.95\<close> has the same
  truth value for every double \<open>p\<close> in both readings.
\<close>

datatype pyfloat = Float real | NaN

fun py_gt :: "pyfloat \<Rightarrow> pyfloat \<Rightarrow> bool" where
  "py_gt (Float a) (Float b) = (a > b)"
| "py_gt _ _ = False"

subsection \<open>Strings\<close>

text \<open>
  \<open>str.lower()\<close> on the ASCII letters; other bytes are left as they are. The trusted
  domains are ASCII, so matching them on UTF-8 bytes agrees with matching on code points.
\<close>

definition lower_char :: "char \<Rightarrow> char" where
  "lower_char c =
     (let n = (of_char c :: nat) in if 65 \<le> n \<and> n \<le> 90 then char_of (n + 32) else c)"

definition lower :: "string \<Rightarrow> string" where
  "lower s = map lower_char s"

text \<open>\<open>startswith\<close> and Python's substring test \<open>d in s\<close>.\<close>

fun startswith :: "string \<Rightarrow> string \<Rightarrow> bool" where
  "startswith s [] = True"
| "startswith [] (d # ds) = False"
| "startswith (c # cs) (d # ds) = (c = d \<and> startswith cs ds)"

fun py_in :: "string \<Rightarrow> string \<Rightarrow> bool" where
  "py_in d [] = (d = [])"
| "py_in d (c # cs) = (startswith (c # cs) d \<or> py_in d cs)"

section \<open>Configuration constants of gmail_spam_checker.py\<close>

definition PROCESSED_LABEL_NAME :: string where
  "PROCESSED_LABEL_NAME = ''ML_PROCESSED''"

definition POLL_INTERVAL_SECONDS :: nat where
  "POLL_INTERVAL_SECONDS = 60"

definition SPAM_CONFIDENCE_THRESHOLD :: pyfloat where
  "SPAM_CONFIDENCE_THRESHOLD = Float 0.95"

definition TRUSTED_DOMAINS :: "string list" where
  "TRUSTED_DOMAINS =
     [''@google.com'', ''@gmail.com'', ''@github.com'', ''@microsoft.com'', ''@amazon.com'']"

section \<open>The provider's resources\<close>

text \<open>
  The Gmail resources the code reads, with the fields it reads. A key that the code reads
  with \<open>.get(key, default)\<close> is an optional field.
\<close>

record label =
  label_id :: string
  label_name :: string

record labels_response =
  labels :: "label list option"

record label_body =
  body_name :: string
  labelListVisibility :: string
  messageListVisibility :: string

record message_ref =
  ref_id :: string

record messages_response =
  messages :: "message_ref list option"

record email =
  email_id :: string
  snippet :: string
  payload_headers :: "(string \<times> string) list"

type_synonym credentials = string

section \<open>State, trace and the external collaborators\<close>

datatype level = INFO | WARNING | ERROR

text \<open>One constructor for each logging call of the two modules.\<close>

datatype log_msg =
    CouldNotObtainCredentials
  | FoundExistingLabel string
  | CreatingLabel string
  | FailedEnsureLabel
  | FailedModifyLabels string
  | CouldNotObtainLabel
  | NoNewUnread
  | FoundMessages nat
  | TRUSTED string string
  | SPAM pyfloat string
  | NOT_SPAM pyfloat string
  | ApiError
  | UnexpectedError exn
  | BatchClassificationError exn

text \<open>
  What the program does to the outside, in order: the requests it sends, the inference it
  runs, the lines it logs and the sleeps between cycles.
\<close>

datatype event =
    GetCredentials
  | Build
  | LabelsList
  | LabelsCreate label_body
  | MessagesList string
  | MessagesGet string
  | MessagesModify string "string list" "string list"
  | Inference "string list"
  | Log level log_msg
  | Sleep nat

record 'w state =
  world :: 'w
  trace :: "event list"

text \<open>
  The Gmail service object: each request either answers or raises, and may change the
  outside world \<open>'w\<close>.
\<close>

record 'w gmail_service =
  labels_list_execute :: "'w \<Rightarrow> (exn + labels_response) \<times> 'w"
  labels_create_execute :: "label_body \<Rightarrow> 'w \<Rightarrow> (exn + label) \<times> 'w"
  messages_list_execute :: "string \<Rightarrow> 'w \<Rightarrow> (exn + messages_response) \<times> 'w"
  messages_get_execute :: "string \<Rightarrow> 'w \<Rightarrow> (exn + email) \<times> 'w"
  messages_modify_execute ::
    "string \<Rightarrow> string list \<Rightarrow> string list \<Rightarrow> 'w \<Rightarrow> (exn + unit) \<times> 'w"

text \<open>
  The body of the \<open>try\<close> of \<open>get_spam_probabilities_batch\<close> (tokenizer, model, softmax,
  column 1 of the predictions) is the collaborator \<open>run_inference\<close>.
\<close>

record 'w spam_classifier =
  run_inference :: "string list \<Rightarrow> 'w \<Rightarrow> (exn + pyfloat list) \<times> 'w"

text \<open>
  \<open>get_credentials\<close> (the OAuth token file and flow) and googleapiclient's
  \<open>build\<close>, as \<open>poll_gmail\<close> uses them: credentials or None, and the service object.
\<close>

record 'w platform =
  get_credentials :: "'w \<Rightarrow> (exn + credentials option) \<times> 'w"
  build :: "credentials \<Rightarrow> 'w \<Rightarrow> (exn + 'w gmail_service) \<times> 'w"

definition call :: "event \<Rightarrow> ('w \<Rightarrow> (exn + 'a) \<times> 'w) \<Rightarrow> 'w state \<Rightarrow> (exn + 'a) \<times> 'w state" where
  "call ev f s =
     (case f (world s) of (r, w') \<Rightarrow> (r, \<lparr>world = w', trace = trace s @ [ev]\<rparr>))"

definition log :: "level \<Rightarrow> log_msg \<Rightarrow> 'w state \<Rightarrow> 'w state" where
  "log lvl m s = \<lparr>world = world s, trace = trace s @ [Log lvl m]\<rparr>"

definition sleep :: "nat \<Rightarrow> 'w state \<Rightarrow> 'w state" where
  "sleep n s = \<lparr>world = world s, trace = trace s @ [Sleep n]\<rparr>"

section \<open>spam_classifier.py\<close>

definition get_spam_probabilities_batch ::
  "'w spam_classifier \<Rightarrow> string list \<Rightarrow> 'w state \<Rightarrow> (exn + pyfloat list) \<times> 'w state" where
  "get_spam_probabilities_batch cl texts s =
     (case call (Inference texts) (run_inference cl texts) s of
        (Inr spam_probabilities, s1) \<Rightarrow> (Inr spam_probabilities, s1)
      | (Inl e, s1) \<Rightarrow>
          if is_Exception e
          then (Inr (replicate (length texts) (Float 0)), log ERROR (BatchClassificationError e) s1)
          else (Inl e, s1))"

definition get_spam_probability ::
  "'w spam_classifier \<Rightarrow> string \<Rightarrow> 'w state \<Rightarrow> (exn + pyfloat) \<times> 'w state" where
  "get_spam_probability cl text s =
     (case get_spam_probabilities_batch cl [text] s of
        (Inl e, s1) \<Rightarrow> (Inl e, s1)
      | (Inr [], s1) \<Rightarrow> (Inl IndexError, s1)
      | (Inr (p # ps), s1) \<Rightarrow> (Inr p, s1))"

section \<open>gmail_spam_checker.py\<close>

text \<open>The \<open>for label in ...\<close> loop of \<open>ensure_processed_label\<close>: the first exact match.\<close>

fun find_label :: "label list \<Rightarrow> string option" where
  "find_label [] = None"
| "find_label (l # ls) =
     (if label_name l = PROCESSED_LABEL_NAME then Some (label_id l) else find_label ls)"

definition ensure_processed_label ::
  "'w gmail_service \<Rightarrow> 'w state \<Rightarrow> (exn + string option) \<times> 'w state" where
  "ensure_processed_label service s =
     (case
        (case call LabelsList (labels_list_execute service) s of
           (Inl e, s1) \<Rightarrow> (Inl e, s1)
         | (Inr labels_response, s1) \<Rightarrow>
             (case find_label (case labels labels_response of None \<Rightarrow> [] | Some ls \<Rightarrow> ls) of
                Some i \<Rightarrow> (Inr (Some i), log INFO (FoundExistingLabel PROCESSED_LABEL_NAME) s1)
              | None \<Rightarrow>
                  (let s2 = log INFO (CreatingLabel PROCESSED_LABEL_NAME) s1;
                       label_body = \<lparr>body_name = PROCESSED_LABEL_NAME,
                                     labelListVisibility = ''labelHide'',
                                     messageListVisibility = ''hide''\<rparr>
                   in case call (LabelsCreate label_body)
                             (labels_create_execute service label_body) s2 of
                        (Inl e, s3) \<Rightarrow> (Inl e, s3)
                      | (Inr created_label, s3) \<Rightarrow> (Inr (Some (label_id created_label)), s3))))
      of
        (Inl e, s') \<Rightarrow>
          if e = HttpError then (Inr None, log ERROR FailedEnsureLabel s') else (Inl e, s')
      | (Inr r, s') \<Rightarrow> (Inr r, s'))"

definition modify_message_labels ::
  "'w gmail_service \<Rightarrow> string \<Rightarrow> string list \<Rightarrow> string list \<Rightarrow> 'w state
     \<Rightarrow> (exn + unit) \<times> 'w state" where
  "modify_message_labels service msg_id labels_to_add labels_to_remove s =
     (case call (MessagesModify msg_id labels_to_add labels_to_remove)
             (messages_modify_execute service msg_id labels_to_add labels_to_remove) s of
        (Inr u, s1) \<Rightarrow> (Inr (), s1)
      | (Inl e, s1) \<Rightarrow>
          if e = HttpError then (Inr (), log ERROR (FailedModifyLabels msg_id) s1)
          else (Inl e, s1))"

text \<open>
  The dict comprehension over the headers keeps the last value of a repeated name;
  \<open>headers.get(key, default)\<close>.
\<close>

definition header_get :: "(string \<times> string) list \<Rightarrow> string \<Rightarrow> string \<Rightarrow> string" where
  "header_get hs key dflt = (case map_of (rev hs) key of None \<Rightarrow> dflt | Some v \<Rightarrow> v)"

definition is_trusted :: "string \<Rightarrow> bool" where
  "is_trusted sender = list_ex (\<lambda>domain. py_in domain (lower sender)) TRUSTED_DOMAINS"

definition subject_of :: "email \<Rightarrow> string" where
  "subject_of email = header_get (payload_headers email) ''Subject'' ''[No Subject]''"

definition sender_of :: "email \<Rightarrow> string" where
  "sender_of email = header_get (payload_headers email) ''From'' ''[No Sender]''"

definition text_to_classify :: "email \<Rightarrow> string" where
  "text_to_classify email =
     ''Subject: '' @ subject_of email @ '' From: '' @ sender_of email @ '' Body: '' @ snippet email"

text \<open>The body of \<open>for msg in messages\<close>, after the metadata of the message is fetched.\<close>

definition triage_email ::
  "'w gmail_service \<Rightarrow> 'w spam_classifier \<Rightarrow> string \<Rightarrow> email \<Rightarrow> 'w state
     \<Rightarrow> (exn + unit) \<times> 'w state" where
  "triage_email service classifier processed_label_id email s =
     (let subject = subject_of email;
          sender = sender_of email
      in if is_trusted sender
         then modify_message_labels service (email_id email) [processed_label_id] []
                (log INFO (TRUSTED subject sender) s)
         else
           (case get_spam_probability classifier (text_to_classify email) s of
              (Inl e, s1) \<Rightarrow> (Inl e, s1)
            | (Inr spam_probability, s1) \<Rightarrow>
                if py_gt spam_probability SPAM_CONFIDENCE_THRESHOLD
                then modify_message_labels service (email_id email) [''SPAM''] [''INBOX'']
                       (log WARNING (SPAM spam_probability subject) s1)
                else modify_message_labels service (email_id email) [processed_label_id] []
                       (log INFO (NOT_SPAM spam_probability subject) s1)))"

definition process_message ::
  "'w gmail_service \<Rightarrow> 'w spam_classifier \<Rightarrow> string \<Rightarrow> message_ref \<Rightarrow> 'w state
     \<Rightarrow> (exn + unit) \<times> 'w state" where
  "process_message service classifier processed_label_id msg s =
     (case call (MessagesGet (ref_id msg)) (messages_get_execute service (ref_id msg)) s of
        (Inl e, s1) \<Rightarrow> (Inl e, s1)
      | (Inr email, s1) \<Rightarrow> triage_email service classifier processed_label_id email s1)"

text \<open>\<open>for msg in messages\<close>: an exception leaves the loop.\<close>

fun for_messages ::
  "'w gmail_service \<Rightarrow> 'w spam_classifier \<Rightarrow> string \<Rightarrow> message_ref list \<Rightarrow> 'w state
     \<Rightarrow> (exn + unit) \<times> 'w state" where
  "for_messages service classifier processed_label_id [] s = (Inr (), s)"
| "for_messages service classifier processed_label_id (msg # msgs) s =
     (case process_message service classifier processed_label_id msg s of
        (Inl e, s1) \<Rightarrow> (Inl e, s1)
      | (Inr u, s1) \<Rightarrow> for_messages service classifier processed_label_id msgs s1)"

definition query :: string where
  "query = ''is:unread -label:'' @ PROCESSED_LABEL_NAME"

text \<open>The body of the \<open>try\<close> inside \<open>while True\<close>.\<close>

definition try_cycle ::
  "'w gmail_service \<Rightarrow> 'w spam_classifier \<Rightarrow> string \<Rightarrow> 'w state \<Rightarrow> (exn + unit) \<times> 'w state" where
  "try_cycle service classifier processed_label_id s =
     (case call (MessagesList query) (messages_list_execute service query) s of
        (Inl e, s1) \<Rightarrow> (Inl e, s1)
      | (Inr response, s1) \<Rightarrow>
          (let msgs = (case messages response of None \<Rightarrow> [] | Some ms \<Rightarrow> ms);
               s2 = (if msgs = [] then log INFO NoNewUnread s1
                     else log INFO (FoundMessages (length msgs)) s1)
           in for_messages service classifier processed_label_id msgs s2))"

text \<open>
  One iteration of \<open>while True\<close>: the \<open>try\<close> with its two handlers, then the sleep.
  An exception that neither handler catches leaves the loop.
\<close>

definition poll_cycle ::
  "'w gmail_service \<Rightarrow> 'w spam_classifier \<Rightarrow> string \<Rightarrow> 'w state \<Rightarrow> (exn + unit) \<times> 'w state" where
  "poll_cycle service classifier processed_label_id s =
     (case try_cycle service classifier processed_label_id s of
        (Inr u, s1) \<Rightarrow> (Inr (), sleep POLL_INTERVAL_SECONDS s1)
      | (Inl e, s1) \<Rightarrow>
          if e = HttpError then (Inr (), sleep POLL_INTERVAL_SECONDS (log ERROR ApiError s1))
          else if is_Exception e
          then (Inr (), sleep POLL_INTERVAL_SECONDS (log ERROR (UnexpectedError e) s1))
          else (Inl e, s1))"

text \<open>
  How a run of \<open>poll_gmail\<close> stands: it returned, it raised, or it is still in its loop
  after the given number of cycles.
\<close>

datatype outcome = Returned | Raised exn | Running

fun while_True ::
  "nat \<Rightarrow> 'w gmail_service \<Rightarrow> 'w spam_classifier \<Rightarrow> string \<Rightarrow> 'w state \<Rightarrow> outcome \<times> 'w state" where
  "while_True 0 service classifier processed_label_id s = (Running, s)"
| "while_True (Suc n) service classifier processed_label_id s =
     (case poll_cycle service classifier processed_label_id s of
        (Inl e, s1) \<Rightarrow> (Raised e, s1)
      | (Inr u, s1) \<Rightarrow> while_True n service classifier processed_label_id s1)"

definition poll_gmail ::
  "nat \<Rightarrow> 'w platform \<Rightarrow> 'w spam_classifier \<Rightarrow> 'w state \<Rightarrow> outcome \<times> 'w state" where
  "poll_gmail cycles platform classifier s =
     (case call GetCredentials (get_credentials platform) s of
        (Inl e, s1) \<Rightarrow> (Raised e, s1)
      | (Inr None, s1) \<Rightarrow> (Returned, log ERROR CouldNotObtainCredentials s1)
      | (Inr (Some creds), s1) \<Rightarrow>
          (case call Build (build platform creds) s1 of
             (Inl e, s2) \<Rightarrow> (Raised e, s2)
           | (Inr service, s2) \<Rightarrow>
               (case ensure_processed_label service s2 of
                  (Inl e, s3) \<Rightarrow> (Raised e, s3)
                | (Inr None, s3) \<Rightarrow> (Returned, log ERROR CouldNotObtainLabel s3)
                | (Inr (Some processed_label_id), s3) \<Rightarrow>
                    if processed_label_id = []
                    then (Returned, log ERROR CouldNotObtainLabel s3)
                    else while_True cycles service classifier processed_label_id s3)))"

section \<open>Reading a trace\<close>

text \<open>The events a computation added to the trace, from the state before to the state after.\<close>

definition new_events :: "'w state \<Rightarrow> 'w state \<Rightarrow> event list" where
  "new_events s s' = drop (length (trace s)) (trace s')"

text \<open>
  The three branches of the loop body, read off the line each one logs:
  \<open>TRUSTED\<close>, \<open>SPAM\<close> and \<open>NOT SPAM\<close>.
\<close>

datatype decision = Trusted | Spam | Ham

definition decision_of :: "event \<Rightarrow> decision option" where
  "decision_of ev =
     (case ev of
        Log lvl m \<Rightarrow>
          (case m of
             TRUSTED subject sender \<Rightarrow> Some Trusted
           | SPAM p subject \<Rightarrow> Some Spam
           | NOT_SPAM p subject \<Rightarrow> Some Ham
           | _ \<Rightarrow> None)
      | _ \<Rightarrow> None)"

definition decisions :: "event list \<Rightarrow> decision list" where
  "decisions evs = List.map_filter decision_of evs"

text \<open>The label mutations requested: message, labels to add, labels to remove.\<close>

definition mutation_of :: "event \<Rightarrow> (string \<times> string list \<times> string list) option" where
  "mutation_of ev = (case ev of MessagesModify i a r \<Rightarrow> Some (i, a, r) | _ \<Rightarrow> None)"

definition mutations :: "event list \<Rightarrow> (string \<times> string list \<times> string list) list" where
  "mutations evs = List.map_filter mutation_of evs"

text \<open>The texts of each run of the classifier, and the messages fetched.\<close>

definition inference_of :: "event \<Rightarrow> string list option" where
  "inference_of ev = (case ev of Inference texts \<Rightarrow> Some texts | _ \<Rightarrow> None)"

definition inferences :: "event list \<Rightarrow> string list list" where
  "inferences evs = List.map_filter inference_of evs"

definition fetch_of :: "event \<Rightarrow> string option" where
  "fetch_of ev = (case ev of MessagesGet i \<Rightarrow> Some i | _ \<Rightarrow> None)"

definition fetches :: "event list \<Rightarrow> string list" where
  "fetches evs = List.map_filter fetch_of evs"

section \<open>Test doubles\<close>

text \<open>
  A provider without state of its own, for running the code on concrete batches: it lists
  three messages, the first from a trusted sender, and fails the fetches and the label
  mutations of the messages named in its two parameters.
\<close>

definition fake_email :: "string \<Rightarrow> email" where
  "fake_email i =
     \<lparr>email_id = i, snippet = ''Click here to claim'',
      payload_headers =
        [(''Subject'', ''Hello''),
         (''From'', if i = ''m1'' then ''Alerts <alerts@GitHub.com>'' else ''random@unknown.biz'')]\<rparr>"

definition fake_service :: "string list \<Rightarrow> string list \<Rightarrow> unit gmail_service" where
  "fake_service failing_get failing_modify =
     \<lparr>labels_list_execute = (\<lambda>w.
        (Inr \<lparr>labels = Some [\<lparr>label_id = ''INBOX'', label_name = ''INBOX''\<rparr>,
                               \<lparr>label_id = ''Label_7'', label_name = ''ML_PROCESSED''\<rparr>]\<rparr>, w)),
      labels_create_execute = (\<lambda>b w. (Inr \<lparr>label_id = ''Label_8'', label_name = body_name b\<rparr>, w)),
      messages_list_execute = (\<lambda>q w.
        (Inr \<lparr>messages = Some [\<lparr>ref_id = ''m1''\<rparr>, \<lparr>ref_id = ''m2''\<rparr>, \<lparr>ref_id = ''m3''\<rparr>]\<rparr>, w)),
      messages_get_execute = (\<lambda>i w.
        if i \<in> set failing_get then (Inl HttpError, w) else (Inr (fake_email i), w)),
      messages_modify_execute = (\<lambda>i a r w.
        if i \<in> set failing_modify then (Inl HttpError, w) else (Inr (), w))\<rparr>"

text \<open>A classifier that gives every text the same probability, and one whose inference fails.\<close>

definition fake_classifier :: "pyfloat \<Rightarrow> unit spam_classifier" where
  "fake_classifier p = \<lparr>run_inference = (\<lambda>texts w. (Inr (map (\<lambda>t. p) texts), w))\<rparr>"

definition broken_classifier :: "unit spam_classifier" where
  "broken_classifier = \<lparr>run_inference = (\<lambda>texts w. (Inl OtherException, w))\<rparr>"

definition start :: "unit state" where
  "start = \<lparr>world = (), trace = []\<rparr>"

text \<open>A provider that is down: every request raises the given exception.\<close>

definition down_service :: "exn \<Rightarrow> unit gmail_service" where
  "down_service e =
     \<lparr>labels_list_execute = (\<lambda>w. (Inl e, w)),
      labels_create_execute = (\<lambda>b w. (Inl e, w)),
      messages_list_execute = (\<lambda>q w. (Inl e, w)),
      messages_get_execute = (\<lambda>i w. (Inl e, w)),
      messages_modify_execute = (\<lambda>i a r w. (Inl e, w))\<rparr>"

text \<open>
  A provider that keeps labels: its world is the list of the labels of the account. Listing
  reports them all, creating appends a label with the requested name and a fresh identifier.
  The flag makes the creation fail instead.
\<close>

definition label_store_service :: "bool \<Rightarrow> label list gmail_service" where
  "label_store_service create_fails =
     \<lparr>labels_list_execute = (\<lambda>w. (Inr \<lparr>labels = Some w\<rparr>, w)),
      labels_create_execute = (\<lambda>b w.
        if create_fails then (Inl HttpError, w)
        else (let l = \<lparr>label_id = ''Label_'' @ replicate (length w) (CHR ''I''),
                          label_name = body_name b\<rparr>
              in (Inr l, w @ [l]))),
      messages_list_execute = (\<lambda>q w. (Inr \<lparr>messages = None\<rparr>, w)),
      messages_get_execute = (\<lambda>i w. (Inl HttpError, w)),
      messages_modify_execute = (\<lambda>i a r w. (Inr (), w))\<rparr>"


text \<open>Credentials are obtained and \<open>build\<close> gives the service.\<close>

definition fake_platform :: "'w gmail_service \<Rightarrow> 'w platform" where
  "fake_platform service =
     \<lparr>get_credentials = (\<lambda>w. (Inr (Some ''token''), w)),
      build = (\<lambda>creds w. (Inr service, w))\<rparr>"

section \<open>Basic facts\<close>

lemma call_eq:
  "f (world s) = (r, w') \<Longrightarrow> call ev f s = (r, \<lparr>world = w', trace = trace s @ [ev]\<rparr>)"
  by (simp add: call_def)

lemma trace_log [simp]: "trace (log lvl m s) = trace s @ [Log lvl m]"
  by (simp add: log_def)

lemma world_log [simp]: "world (log lvl m s) = world s"
  by (simp add: log_def)

lemma trace_sleep [simp]: "trace (sleep n s) = trace s @ [Sleep n]"
  by (simp add: sleep_def)

lemma world_sleep [simp]: "world (sleep n s) = world s"
  by (simp add: sleep_def)

text \<open>The two string tests compute the prefix and the substring relations.\<close>

lemma startswith_iff: "startswith s d \<longleftrightarrow> (\<exists>post. s = d @ post)"
  by (induction s d rule: startswith.induct) auto

lemma py_in_iff: "py_in d s \<longleftrightarrow> (\<exists>pre post. s = pre @ d @ post)"
proof (induction s)
  case Nil
  then show ?case by auto
next
  case (Cons c cs)
  show ?case
  proof
    assume "py_in d (c # cs)"
    then consider "startswith (c # cs) d" | "py_in d cs" by auto
    then show "\<exists>pre post. c # cs = pre @ d @ post"
    proof cases
      case 1
      then obtain post where "c # cs = d @ post" by (auto simp: startswith_iff)
      then have "c # cs = [] @ d @ post" by simp
      then show ?thesis by blast
    next
      case 2
      then obtain pre post where "cs = pre @ d @ post" using Cons.IH by blast
      then have "c # cs = (c # pre) @ d @ post" by simp
      then show ?thesis by blast
    qed
  next
    assume "\<exists>pre post. c # cs = pre @ d @ post"
    then obtain pre post where eq: "c # cs = pre @ d @ post" by blast
    show "py_in d (c # cs)"
    proof (cases pre)
      case Nil
      then have "startswith (c # cs) d" using eq by (auto simp: startswith_iff)
      then show ?thesis by simp
    next
      case (Cons p ps)
      then have "cs = ps @ d @ post" using eq by simp
      then have "py_in d cs" using Cons.IH by blast
      then show ?thesis by simp
    qed
  qed
qed

lemma is_trusted_iff:
  "is_trusted sender \<longleftrightarrow> (\<exists>d \<in> set TRUSTED_DOMAINS. \<exists>pre post. lower sender = pre @ d @ post)"
  by (simp add: is_trusted_def list_ex_iff py_in_iff)

section \<open>Events of the loop body\<close>

lemma decisions_simps [simp]:
  "decisions [] = []"
  "decisions (xs @ ys) = decisions xs @ decisions ys"
  "decisions (Log lvl (TRUSTED subj sndr) # es) = Trusted # decisions es"
  "decisions (Log lvl (SPAM p c) # es) = Spam # decisions es"
  "decisions (Log lvl (NOT_SPAM p c) # es) = Ham # decisions es"
  "decisions (Log lvl (FailedModifyLabels i) # es) = decisions es"
  "decisions (Log lvl (BatchClassificationError e) # es) = decisions es"
  "decisions (MessagesModify i a r # es) = decisions es"
  "decisions (MessagesGet i # es) = decisions es"
  "decisions (Inference ts # es) = decisions es"
  by (simp_all add: decisions_def decision_of_def map_filter_def)

lemma mutations_simps [simp]:
  "mutations [] = []"
  "mutations (xs @ ys) = mutations xs @ mutations ys"
  "mutations (Log lvl m # es) = mutations es"
  "mutations (MessagesModify i a r # es) = (i, a, r) # mutations es"
  "mutations (MessagesGet i # es) = mutations es"
  "mutations (Inference ts # es) = mutations es"
  by (simp_all add: mutations_def mutation_of_def map_filter_def)

lemma inferences_simps [simp]:
  "inferences [] = []"
  "inferences (xs @ ys) = inferences xs @ inferences ys"
  "inferences (Log lvl m # es) = inferences es"
  "inferences (MessagesModify i a r # es) = inferences es"
  "inferences (MessagesGet i # es) = inferences es"
  "inferences (Inference ts # es) = ts # inferences es"
  by (simp_all add: inferences_def inference_of_def map_filter_def)

lemma new_events_append [simp]: "trace s' = trace s @ evs \<Longrightarrow> new_events s s' = evs"
  by (simp add: new_events_def)

lemma modify_message_labels_events:
  assumes "modify_message_labels svc i a r s = (res, s')"
  shows "trace s' = trace s @ [MessagesModify i a r]
       \<or> trace s' = trace s @ [MessagesModify i a r, Log ERROR (FailedModifyLabels i)]"
  using assms
  by (auto simp: modify_message_labels_def call_def split: prod.splits sum.splits if_splits)

lemma get_spam_probability_events:
  assumes "get_spam_probability cl t s = (res, s')"
  shows "\<exists>evs. trace s' = trace s @ evs \<and> decisions evs = [] \<and> mutations evs = []
           \<and> inferences evs = [[t]]"
  using assms
  by (auto simp: get_spam_probability_def get_spam_probabilities_batch_def call_def
           split: prod.splits sum.splits if_splits list.splits)

lemma triage_trusted:
  assumes "is_trusted (sender_of email)"
      and "triage_email svc cl lid email s = (r, s')"
  shows "\<exists>evs. trace s' = trace s @ evs \<and> decisions evs = [Trusted] \<and> inferences evs = []
           \<and> mutations evs = [(email_id email, [lid], [])]"
proof -
  from assms have m: "modify_message_labels svc (email_id email) [lid] []
        (log INFO (TRUSTED (subject_of email) (sender_of email)) s) = (r, s')"
    by (simp add: triage_email_def Let_def)
  from modify_message_labels_events [OF m] show ?thesis by auto
qed

lemma triage_classified:
  assumes "\<not> is_trusted (sender_of email)"
      and "get_spam_probability cl (text_to_classify email) s = (Inr p, s1)"
      and "triage_email svc cl lid email s = (r, s')"
  shows "\<exists>evs. trace s' = trace s @ evs \<and> inferences evs = [[text_to_classify email]]
           \<and> (if py_gt p SPAM_CONFIDENCE_THRESHOLD
               then decisions evs = [Spam] \<and> mutations evs = [(email_id email, [''SPAM''], [''INBOX''])]
               else decisions evs = [Ham] \<and> mutations evs = [(email_id email, [lid], [])])"
proof -
  from get_spam_probability_events [OF assms(2)] obtain e1 where
    e1: "trace s1 = trace s @ e1" "decisions e1 = []" "mutations e1 = []"
        "inferences e1 = [[text_to_classify email]]" by blast
  show ?thesis
  proof (cases "py_gt p SPAM_CONFIDENCE_THRESHOLD")
    case True
    with assms have m: "modify_message_labels svc (email_id email) [''SPAM''] [''INBOX'']
        (log WARNING (SPAM p (subject_of email)) s1) = (r, s')"
      by (simp add: triage_email_def Let_def)
    from modify_message_labels_events [OF m] e1 True show ?thesis by auto
  next
    case False
    with assms have m: "modify_message_labels svc (email_id email) [lid] []
        (log INFO (NOT_SPAM p (subject_of email)) s1) = (r, s')"
      by (simp add: triage_email_def Let_def)
    from modify_message_labels_events [OF m] e1 False show ?thesis by auto
  qed
qed

lemma triage_classifier_raised:
  assumes "\<not> is_trusted (sender_of email)"
      and "get_spam_probability cl (text_to_classify email) s = (Inl e, s1)"
      and "triage_email svc cl lid email s = (r, s')"
  shows "r = Inl e \<and> s' = s1"
  using assms by (simp add: triage_email_def Let_def)

lemma process_message_fetched:
  assumes "messages_get_execute service (ref_id msg) (world s) = (Inr email, w1)"
  shows "process_message service classifier lid msg s =
           triage_email service classifier lid email
             \<lparr>world = w1, trace = trace s @ [MessagesGet (ref_id msg)]\<rparr>"
  using assms by (simp add: process_message_def call_def)

lemma new_events_trans:
  "trace s1 = trace s @ e1 \<Longrightarrow> trace s2 = trace s1 @ e2 \<Longrightarrow> new_events s s2 = e1 @ e2"
  by (simp add: new_events_def)

section \<open>The triage of a message\<close>

text \<open>
  C1. A message whose lower-cased sender header contains one of the trusted domains as a
  substring is decided Trusted, and processing it runs no inference, whatever its subject
  and snippet are.
\<close>

theorem trusted_sender_bypasses_classifier:
  assumes "messages_get_execute service (ref_id msg) (world s) = (Inr email, w1)"
      and "d \<in> set TRUSTED_DOMAINS"
      and "lower (sender_of email) = pre @ d @ post"
  shows "decisions (new_events s (snd (process_message service classifier lid msg s))) = [Trusted]
       \<and> inferences (new_events s (snd (process_message service classifier lid msg s))) = []"
proof -
  let ?s1 = "\<lparr>world = w1, trace = trace s @ [MessagesGet (ref_id msg)]\<rparr>"
  obtain r s' where t: "triage_email service classifier lid email ?s1 = (r, s')"
    by (cases "triage_email service classifier lid email ?s1")
  have tr: "is_trusted (sender_of email)"
    using assms(2,3) by (auto simp: is_trusted_iff)
  from triage_trusted [OF tr t] obtain evs where
    evs: "trace s' = trace ?s1 @ evs" "decisions evs = [Trusted]" "inferences evs = []"
    by blast
  have "new_events s s' = [MessagesGet (ref_id msg)] @ evs"
    by (rule new_events_trans [OF _ evs(1)]) simp
  moreover have "snd (process_message service classifier lid msg s) = s'"
    by (simp add: process_message_fetched [OF assms(1)] t)
  ultimately show ?thesis using evs by simp
qed

theorem trusted_sender_bypasses_classifier_witness:
  "messages_get_execute (fake_service [] []) (ref_id \<lparr>ref_id = ''m1''\<rparr>) (world start)
     = (Inr (fake_email ''m1''), ())
   \<and> ''@github.com'' \<in> set TRUSTED_DOMAINS
   \<and> lower (sender_of (fake_email ''m1'')) = ''alerts <alerts'' @ ''@github.com'' @ ''>''
   \<and> decisions (new_events start (snd (process_message (fake_service [] [])
        (fake_classifier (Float 0.99)) ''Label_7'' \<lparr>ref_id = ''m1''\<rparr> start))) = [Trusted]
   \<and> inferences (new_events start (snd (process_message (fake_service [] [])
        (fake_classifier (Float 0.99)) ''Label_7'' \<lparr>ref_id = ''m1''\<rparr> start))) = []"
proof -
  have h1: "messages_get_execute (fake_service [] []) (ref_id \<lparr>ref_id = ''m1''\<rparr>) (world start)
     = (Inr (fake_email ''m1''), ())"
    by (simp add: fake_service_def)
  have h2: "''@github.com'' \<in> set TRUSTED_DOMAINS"
    by (simp add: TRUSTED_DOMAINS_def)
  have h3: "lower (sender_of (fake_email ''m1'')) = ''alerts <alerts'' @ ''@github.com'' @ ''>''"
    by code_simp
  from trusted_sender_bypasses_classifier [OF h1 h2 h3, of "fake_classifier (Float 0.99)" "''Label_7''"]
  show ?thesis using h1 h2 h3 by simp
qed

text \<open>
  C2. A message that is not trusted and that the classifier gives the probability p is
  decided Spam exactly when p is strictly greater than the threshold 0.95, and Ham
  otherwise; a probability equal to the threshold is Ham.
\<close>

theorem spam_iff_strictly_above_threshold:
  assumes "\<not> is_trusted (sender_of email)"
      and "get_spam_probability classifier (text_to_classify email) s = (Inr p, s1)"
  shows "decisions (new_events s (snd (triage_email service classifier lid email s)))
           = [if \<exists>x. p = Float x \<and> 95 / 100 < x then Spam else Ham]
       \<and> (p = SPAM_CONFIDENCE_THRESHOLD \<longrightarrow>
            decisions (new_events s (snd (triage_email service classifier lid email s))) = [Ham])"
proof -
  obtain r s' where t: "triage_email service classifier lid email s = (r, s')"
    by (cases "triage_email service classifier lid email s")
  have gt: "py_gt p SPAM_CONFIDENCE_THRESHOLD \<longleftrightarrow> (\<exists>x. p = Float x \<and> 95 / 100 < x)"
    by (cases p) (simp_all add: SPAM_CONFIDENCE_THRESHOLD_def)
  from triage_classified [OF assms t] obtain evs where
    evs: "trace s' = trace s @ evs"
      "if py_gt p SPAM_CONFIDENCE_THRESHOLD then decisions evs = [Spam] else decisions evs = [Ham]"
    by (auto split: if_splits)
  define above where "above \<longleftrightarrow> (\<exists>x. p = Float x \<and> 95 / 100 < x)"
  have d: "decisions (new_events s s') = [if above then Spam else Ham]"
    using evs gt unfolding above_def [symmetric] by (simp split: if_splits)
  have "\<not> above" if "p = SPAM_CONFIDENCE_THRESHOLD"
    using that unfolding above_def by (simp add: SPAM_CONFIDENCE_THRESHOLD_def)
  then have "p = SPAM_CONFIDENCE_THRESHOLD \<longrightarrow> decisions (new_events s s') = [Ham]"
    using d by simp
  with d show ?thesis unfolding t snd_conv above_def by (rule conjI)
qed

theorem spam_iff_strictly_above_threshold_witness:
  "\<not> is_trusted (sender_of (fake_email ''m2''))
   \<and> get_spam_probability (fake_classifier (Float 0.95)) (text_to_classify (fake_email ''m2'')) start
       = (Inr (Float 0.95),
          \<lparr>world = (), trace = [Inference [text_to_classify (fake_email ''m2'')]]\<rparr>)
   \<and> Float 0.95 = SPAM_CONFIDENCE_THRESHOLD
   \<and> decisions (new_events start (snd (triage_email (fake_service [] [])
        (fake_classifier (Float 0.95)) ''Label_7'' (fake_email ''m2'') start))) = [Ham]"
proof -
  have h1: "\<not> is_trusted (sender_of (fake_email ''m2''))"
    by code_simp
  have h2: "get_spam_probability (fake_classifier (Float 0.95))
              (text_to_classify (fake_email ''m2'')) start
       = (Inr (Float 0.95),
          \<lparr>world = (), trace = [Inference [text_to_classify (fake_email ''m2'')]]\<rparr>)"
    by (simp add: get_spam_probability_def get_spam_probabilities_batch_def call_def
        fake_classifier_def start_def)
  from spam_iff_strictly_above_threshold [OF h1 h2, of "fake_service [] []" "''Label_7''"]
  show ?thesis using h1 h2 by (simp add: SPAM_CONFIDENCE_THRESHOLD_def)
qed

lemma triage_email_events:
  assumes "triage_email svc cl lid email s = (r, s')"
  shows "\<exists>evs. trace s' = trace s @ evs \<and>
           ((decisions evs = [Trusted] \<and> mutations evs = [(email_id email, [lid], [])])
          \<or> (decisions evs = [Ham] \<and> mutations evs = [(email_id email, [lid], [])])
          \<or> (decisions evs = [Spam] \<and> mutations evs = [(email_id email, [''SPAM''], [''INBOX''])])
          \<or> (decisions evs = [] \<and> mutations evs = [] \<and> (\<exists>e. r = Inl e)))"
proof (cases "is_trusted (sender_of email)")
  case True
  from triage_trusted [OF True assms] show ?thesis by blast
next
  case False
  obtain q s1 where g: "get_spam_probability cl (text_to_classify email) s = (q, s1)"
    by (cases "get_spam_probability cl (text_to_classify email) s")
  show ?thesis
  proof (cases q)
    case (Inl e)
    from get_spam_probability_events [OF g] obtain evs where
      evs: "trace s1 = trace s @ evs" "decisions evs = []" "mutations evs = []" by blast
    from triage_classifier_raised [OF False g [unfolded Inl] assms] have "r = Inl e" "s' = s1"
      by simp_all
    with evs show ?thesis by blast
  next
    case (Inr p)
    from triage_classified [OF False g [unfolded Inr] assms] show ?thesis
      by (auto split: if_splits)
  qed
qed

text \<open>
  C3. The label mutation requested for a message follows its decision: Trusted and Ham add
  exactly the processed label and remove nothing; Spam adds exactly SPAM and removes exactly
  INBOX, so it does not add the processed label; a message gets at most one decision, and
  every decision comes with one mutation whose list of labels to add is not empty.
\<close>

theorem label_mutation_of_each_decision:
  "(decisions (new_events s (snd (triage_email service classifier lid email s))) = [Trusted]
      \<or> decisions (new_events s (snd (triage_email service classifier lid email s))) = [Ham]
     \<longrightarrow> mutations (new_events s (snd (triage_email service classifier lid email s)))
           = [(email_id email, [lid], [])])
   \<and> (decisions (new_events s (snd (triage_email service classifier lid email s))) = [Spam]
     \<longrightarrow> mutations (new_events s (snd (triage_email service classifier lid email s)))
           = [(email_id email, [''SPAM''], [''INBOX''])]
         \<and> (lid \<noteq> ''SPAM'' \<longrightarrow>
              (\<forall>m \<in> set (mutations (new_events s (snd (triage_email service classifier lid email s)))).
                 lid \<notin> set (fst (snd m)))))
   \<and> (decisions (new_events s (snd (triage_email service classifier lid email s))) \<noteq> []
     \<longrightarrow> (\<exists>d add remove.
           decisions (new_events s (snd (triage_email service classifier lid email s))) = [d]
         \<and> mutations (new_events s (snd (triage_email service classifier lid email s)))
             = [(email_id email, add, remove)]
         \<and> add \<noteq> []))"
proof -
  obtain r s' where t: "triage_email service classifier lid email s = (r, s')"
    by (cases "triage_email service classifier lid email s")
  from triage_email_events [OF t] obtain evs where
    evs: "trace s' = trace s @ evs"
      "(decisions evs = [Trusted] \<and> mutations evs = [(email_id email, [lid], [])])
          \<or> (decisions evs = [Ham] \<and> mutations evs = [(email_id email, [lid], [])])
          \<or> (decisions evs = [Spam] \<and> mutations evs = [(email_id email, [''SPAM''], [''INBOX''])])
          \<or> (decisions evs = [] \<and> mutations evs = [] \<and> (\<exists>e. r = Inl e))"
    by blast
  have n: "new_events s (snd (triage_email service classifier lid email s)) = evs"
    using evs(1) by (simp add: t)
  show ?thesis unfolding n using evs(2) by auto
qed

theorem label_mutation_of_each_decision_witness:
  "decisions (new_events start (snd (triage_email (fake_service [] [])
      (fake_classifier (Float 0.99)) ''Label_7'' (fake_email ''m1'') start))) = [Trusted]
   \<and> mutations (new_events start (snd (triage_email (fake_service [] [])
      (fake_classifier (Float 0.99)) ''Label_7'' (fake_email ''m1'') start)))
       = [(''m1'', [''Label_7''], [])]
   \<and> decisions (new_events start (snd (triage_email (fake_service [] [])
      (fake_classifier (Float 0.40)) ''Label_7'' (fake_email ''m2'') start))) = [Ham]
   \<and> mutations (new_events start (snd (triage_email (fake_service [] [])
      (fake_classifier (Float 0.40)) ''Label_7'' (fake_email ''m2'') start)))
       = [(''m2'', [''Label_7''], [])]
   \<and> decisions (new_events start (snd (triage_email (fake_service [] [])
      (fake_classifier (Float 0.99)) ''Label_7'' (fake_email ''m2'') start))) = [Spam]
   \<and> mutations (new_events start (snd (triage_email (fake_service [] [])
      (fake_classifier (Float 0.99)) ''Label_7'' (fake_email ''m2'') start)))
       = [(''m2'', [''SPAM''], [''INBOX''])]
   \<and> ''Label_7'' \<noteq> ''SPAM''"
proof -
  have t1: "is_trusted (sender_of (fake_email ''m1''))" by code_simp
  have t2: "\<not> is_trusted (sender_of (fake_email ''m2''))" by code_simp
  have d1: "decisions (new_events start (snd (triage_email (fake_service [] [])
      (fake_classifier (Float 0.99)) ''Label_7'' (fake_email ''m1'') start))) = [Trusted]"
    using t1
    by (simp add: triage_email_def modify_message_labels_def call_def fake_service_def
        start_def new_events_def)
  have d2: "decisions (new_events start (snd (triage_email (fake_service [] [])
      (fake_classifier (Float 0.40)) ''Label_7'' (fake_email ''m2'') start))) = [Ham]"
    using t2
    by (simp add: triage_email_def modify_message_labels_def call_def fake_service_def
        start_def new_events_def get_spam_probability_def get_spam_probabilities_batch_def
        fake_classifier_def SPAM_CONFIDENCE_THRESHOLD_def)
  have d3: "decisions (new_events start (snd (triage_email (fake_service [] [])
      (fake_classifier (Float 0.99)) ''Label_7'' (fake_email ''m2'') start))) = [Spam]"
    using t2
    by (simp add: triage_email_def modify_message_labels_def call_def fake_service_def
        start_def new_events_def get_spam_probability_def get_spam_probabilities_batch_def
        fake_classifier_def SPAM_CONFIDENCE_THRESHOLD_def)
  have e: "email_id (fake_email ''m1'') = ''m1''" "email_id (fake_email ''m2'') = ''m2''"
    by (simp_all add: fake_email_def)
  from label_mutation_of_each_decision
         [of start "fake_service [] []" "fake_classifier (Float 0.99)" "''Label_7''" "fake_email ''m1''"]
       label_mutation_of_each_decision
         [of start "fake_service [] []" "fake_classifier (Float 0.40)" "''Label_7''" "fake_email ''m2''"]
       label_mutation_of_each_decision
         [of start "fake_service [] []" "fake_classifier (Float 0.99)" "''Label_7''" "fake_email ''m2''"]
  show ?thesis unfolding d1 d2 d3 e by simp
qed

section \<open>A failing classifier\<close>

lemma batch_inference_failed:
  assumes "run_inference cl texts (world s) = (Inl e, w')" and "is_Exception e"
  shows "get_spam_probabilities_batch cl texts s =
           (Inr (replicate (length texts) (Float 0)),
            \<lparr>world = w', trace = trace s @ [Inference texts, Log ERROR (BatchClassificationError e)]\<rparr>)"
  using assms by (simp add: get_spam_probabilities_batch_def call_def log_def)

text \<open>
  C5. When the inference of a batch fails with an exception, the batch classification
  returns 0.0 for each of the texts, a list as long as the input, and does not raise;
  a message that is not trusted and whose inference fails is then decided Ham and gets the
  processed label, never SPAM.
\<close>

theorem broken_classifier_degrades_to_ham:
  "(run_inference classifier texts (world s) = (Inl e, w') \<and> is_Exception e \<longrightarrow>
      fst (get_spam_probabilities_batch classifier texts s)
        = Inr (replicate (length texts) (Float 0))
    \<and> length (replicate (length texts) (Float 0)) = length texts)
   \<and> (\<not> is_trusted (sender_of email)
      \<and> run_inference classifier [text_to_classify email] (world s) = (Inl e, w')
      \<and> is_Exception e \<longrightarrow>
      decisions (new_events s (snd (triage_email service classifier lid email s))) = [Ham]
    \<and> mutations (new_events s (snd (triage_email service classifier lid email s)))
        = [(email_id email, [lid], [])])"
proof (intro conjI impI)
  assume "run_inference classifier texts (world s) = (Inl e, w') \<and> is_Exception e"
  then show "fst (get_spam_probabilities_batch classifier texts s)
        = Inr (replicate (length texts) (Float 0))"
    by (simp add: batch_inference_failed)
next
  show "length (replicate (length texts) (Float 0)) = length texts" by simp
next
  assume a: "\<not> is_trusted (sender_of email)
      \<and> run_inference classifier [text_to_classify email] (world s) = (Inl e, w')
      \<and> is_Exception e"
  let ?s1 = "\<lparr>world = w', trace = trace s @ [Inference [text_to_classify email],
                 Log ERROR (BatchClassificationError e)]\<rparr>"
  have g: "get_spam_probability classifier (text_to_classify email) s = (Inr (Float 0), ?s1)"
    using a by (simp add: get_spam_probability_def batch_inference_failed)
  obtain r s' where t: "triage_email service classifier lid email s = (r, s')"
    by (cases "triage_email service classifier lid email s")
  have ngt: "\<not> py_gt (Float 0) SPAM_CONFIDENCE_THRESHOLD"
    by (simp add: SPAM_CONFIDENCE_THRESHOLD_def)
  from a have nt: "\<not> is_trusted (sender_of email)" by simp
  from triage_classified [OF nt g t] ngt obtain evs where
    evs: "trace s' = trace s @ evs" "decisions evs = [Ham]"
         "mutations evs = [(email_id email, [lid], [])]"
    by auto
  have n: "new_events s (snd (triage_email service classifier lid email s)) = evs"
    using evs(1) by (simp add: t)
  show "decisions (new_events s (snd (triage_email service classifier lid email s))) = [Ham]"
    unfolding n by (rule evs(2))
  show "mutations (new_events s (snd (triage_email service classifier lid email s)))
        = [(email_id email, [lid], [])]"
    unfolding n by (rule evs(3))
qed

theorem broken_classifier_degrades_to_ham_witness:
  "run_inference broken_classifier [''win a prize'', ''lunch tomorrow?''] (world start)
     = (Inl OtherException, ())
   \<and> is_Exception OtherException
   \<and> \<not> is_trusted (sender_of (fake_email ''m2''))
   \<and> run_inference broken_classifier [text_to_classify (fake_email ''m2'')] (world start)
     = (Inl OtherException, ())
   \<and> fst (get_spam_probabilities_batch broken_classifier
            [''win a prize'', ''lunch tomorrow?''] start) = Inr [Float 0, Float 0]
   \<and> decisions (new_events start (snd (triage_email (fake_service [] []) broken_classifier
        ''Label_7'' (fake_email ''m2'') start))) = [Ham]
   \<and> mutations (new_events start (snd (triage_email (fake_service [] []) broken_classifier
        ''Label_7'' (fake_email ''m2'') start))) = [(''m2'', [''Label_7''], [])]"
proof -
  have h1: "run_inference broken_classifier [''win a prize'', ''lunch tomorrow?''] (world start)
     = (Inl OtherException, ())"
    by (simp add: broken_classifier_def)
  have h2: "\<not> is_trusted (sender_of (fake_email ''m2''))" by code_simp
  have h3: "run_inference broken_classifier [text_to_classify (fake_email ''m2'')] (world start)
     = (Inl OtherException, ())"
    by (simp add: broken_classifier_def)
  have e: "email_id (fake_email ''m2'') = ''m2''" by (simp add: fake_email_def)
  from broken_classifier_degrades_to_ham
         [of broken_classifier "[''win a prize'', ''lunch tomorrow?'']" start OtherException "()"
             "fake_email ''m2''" "fake_service [] []" "''Label_7''"]
  show ?thesis using h1 h2 h3 e by (simp add: numeral_2_eq_2)
qed

section \<open>Failures inside a batch\<close>






lemma for_messages_append:
  "for_messages svc cl lid (xs @ ys) s =
     (case for_messages svc cl lid xs s of
        (Inl e, s1) \<Rightarrow> (Inl e, s1)
      | (Inr u, s1) \<Rightarrow> for_messages svc cl lid ys s1)"
  by (induction xs arbitrary: s) (auto split: prod.splits sum.splits)


lemma process_message_extends:
  assumes "process_message svc cl lid msg s = (r, s')"
  shows "\<exists>evs. trace s' = trace s @ MessagesGet (ref_id msg) # evs"
proof -
  obtain g w1 where c: "messages_get_execute svc (ref_id msg) (world s) = (g, w1)"
    by (cases "messages_get_execute svc (ref_id msg) (world s)")
  let ?s1 = "\<lparr>world = w1, trace = trace s @ [MessagesGet (ref_id msg)]\<rparr>"
  show ?thesis
  proof (cases g)
    case (Inl e)
    with c assms have "s' = ?s1" by (simp add: process_message_def call_def)
    then show ?thesis by simp
  next
    case (Inr email)
    with c assms have t: "triage_email svc cl lid email ?s1 = (r, s')"
      by (simp add: process_message_def call_def)
    from triage_email_events [OF t] obtain evs where "trace s' = trace ?s1 @ evs" by blast
    then show ?thesis by simp
  qed
qed

lemma for_messages_extends:
  "for_messages svc cl lid msgs s = (r, s') \<Longrightarrow> \<exists>evs. trace s' = trace s @ evs"
proof (induction msgs arbitrary: s)
  case Nil
  then show ?case by simp
next
  case (Cons m ms)
  obtain r1 s1 where p: "process_message svc cl lid m s = (r1, s1)"
    by (cases "process_message svc cl lid m s")
  from process_message_extends [OF p] obtain e1 where e1: "trace s1 = trace s @ MessagesGet (ref_id m) # e1"
    by blast
  show ?case
  proof (cases r1)
    case (Inl e)
    with Cons.prems p have "s' = s1" by simp
    with e1 show ?thesis by simp
  next
    case (Inr u)
    with Cons.prems p have "for_messages svc cl lid ms s1 = (r, s')" by simp
    from Cons.IH [OF this] obtain e2 where "trace s' = trace s1 @ e2" by blast
    with e1 show ?thesis by simp
  qed
qed

lemma for_messages_reaches:
  assumes "for_messages svc cl lid pre s = (Inr (), s1)"
      and "for_messages svc cl lid (pre @ msg # post) s = (r, s')"
  shows "\<exists>evs. trace s' = trace s1 @ MessagesGet (ref_id msg) # evs"
proof -
  from assms have f: "for_messages svc cl lid (msg # post) s1 = (r, s')"
    by (simp add: for_messages_append)
  obtain r1 s2 where p: "process_message svc cl lid msg s1 = (r1, s2)"
    by (cases "process_message svc cl lid msg s1")
  from process_message_extends [OF p] obtain e1 where
    e1: "trace s2 = trace s1 @ MessagesGet (ref_id msg) # e1" by blast
  show ?thesis
  proof (cases r1)
    case (Inl e)
    with f p have "s' = s2" by simp
    with e1 show ?thesis by simp
  next
    case (Inr u)
    with f p have "for_messages svc cl lid post s2 = (r, s')" by simp
    from for_messages_extends [OF this] obtain e2 where "trace s' = trace s2 @ e2" by blast
    with e1 show ?thesis by simp
  qed
qed

lemma poll_cycle_extends_try:
  assumes "try_cycle svc cl lid s = (r, s1)"
  shows "\<exists>evs. trace (snd (poll_cycle svc cl lid s)) = trace s1 @ evs"
  using assms by (cases r) (auto simp: poll_cycle_def)


lemma fetches_simps [simp]:
  "fetches [] = []"
  "fetches (xs @ ys) = fetches xs @ fetches ys"
  "fetches (MessagesGet i # es) = i # fetches es"
  "fetches (Log lvl m # es) = fetches es"
  "fetches (MessagesModify j a r # es) = fetches es"
  "fetches (MessagesList q # es) = fetches es"
  "fetches (Inference ts # es) = fetches es"
  "fetches (Sleep n # es) = fetches es"
  by (simp_all add: fetches_def fetch_of_def map_filter_def)


lemma poll_cycle_caught:
  assumes "try_cycle svc cl lid s = (Inl e, s1)" and "is_Exception e"
  shows "poll_cycle svc cl lid s =
           (Inr (), \<lparr>world = world s1,
                     trace = trace s1 @ [Log ERROR (if e = HttpError then ApiError
                                                    else UnexpectedError e),
                                         Sleep POLL_INTERVAL_SECONDS]\<rparr>)"
  using assms by (simp add: poll_cycle_def sleep_def log_def)


section \<open>The polling loop\<close>

lemma poll_cycle_raises:
  assumes "poll_cycle svc cl lid s = (Inl e, s1)"
  shows "\<not> is_Exception e"
proof -
  obtain r s0 where t: "try_cycle svc cl lid s = (r, s0)"
    by (cases "try_cycle svc cl lid s")
  show ?thesis
  proof (cases r)
    case (Inr u)
    with t assms show ?thesis by (simp add: poll_cycle_def)
  next
    case (Inl e')
    with t assms show ?thesis by (auto simp: poll_cycle_def split: if_splits)
  qed
qed

lemma while_True_never_returns:
  "fst (while_True n svc cl lid s) \<noteq> Returned"
  by (induction n arbitrary: s) (auto split: prod.splits sum.splits)

lemma while_True_raises:
  "fst (while_True n svc cl lid s) = Raised e \<Longrightarrow> \<not> is_Exception e"
proof (induction n arbitrary: s)
  case 0
  then show ?case by simp
next
  case (Suc n)
  obtain r s1 where p: "poll_cycle svc cl lid s = (r, s1)"
    by (cases "poll_cycle svc cl lid s")
  show ?case
  proof (cases r)
    case (Inl e')
    with p Suc.prems have "e' = e" by simp
    with p Inl poll_cycle_raises show ?thesis by blast
  next
    case (Inr u)
    with p Suc.prems have "fst (while_True n svc cl lid s1) = Raised e" by simp
    then show ?thesis by (rule Suc.IH)
  qed
qed

lemma try_cycle_list_failed:
  assumes "messages_list_execute svc query (world s) = (Inl e, w1)"
  shows "try_cycle svc cl lid s = (Inl e, \<lparr>world = w1, trace = trace s @ [MessagesList query]\<rparr>)"
  using assms by (simp add: try_cycle_def call_def)

text \<open>
  C8. Once in its loop, poll_gmail never returns, and it leaves the loop by raising only
  for an exception that is not an Exception (KeyboardInterrupt, SystemExit). An Exception
  raised in a cycle, such as the one of a failing list call, is caught and logged, the loop
  sleeps for the poll interval and goes on with the next cycle.
\<close>

theorem cycle_failure_never_ends_the_loop:
  "fst (while_True n service classifier lid s) \<noteq> Returned
   \<and> (fst (while_True n service classifier lid s) = Raised e \<longrightarrow> \<not> is_Exception e)
   \<and> (try_cycle service classifier lid s = (Inl e, s1) \<and> is_Exception e \<longrightarrow>
        poll_cycle service classifier lid s =
          (Inr (), \<lparr>world = world s1,
                    trace = trace s1 @ [Log ERROR (if e = HttpError then ApiError
                                                   else UnexpectedError e),
                                        Sleep POLL_INTERVAL_SECONDS]\<rparr>)
      \<and> while_True (Suc n) service classifier lid s =
          while_True n service classifier lid
            \<lparr>world = world s1,
             trace = trace s1 @ [Log ERROR (if e = HttpError then ApiError
                                            else UnexpectedError e),
                                 Sleep POLL_INTERVAL_SECONDS]\<rparr>)
   \<and> (messages_list_execute service query (world s) = (Inl e, w1) \<and> is_Exception e \<longrightarrow>
        while_True (Suc n) service classifier lid s =
          while_True n service classifier lid
            \<lparr>world = w1,
             trace = trace s @ [MessagesList query,
                                Log ERROR (if e = HttpError then ApiError
                                           else UnexpectedError e),
                                Sleep POLL_INTERVAL_SECONDS]\<rparr>)"
proof (intro conjI impI)
  show "fst (while_True n service classifier lid s) \<noteq> Returned"
    by (rule while_True_never_returns)
next
  assume "fst (while_True n service classifier lid s) = Raised e"
  then show "\<not> is_Exception e" by (rule while_True_raises)
next
  assume a: "try_cycle service classifier lid s = (Inl e, s1) \<and> is_Exception e"
  then have pc: "poll_cycle service classifier lid s =
          (Inr (), \<lparr>world = world s1,
                    trace = trace s1 @ [Log ERROR (if e = HttpError then ApiError
                                                   else UnexpectedError e),
                                        Sleep POLL_INTERVAL_SECONDS]\<rparr>)"
    by (simp add: poll_cycle_caught)
  then show "poll_cycle service classifier lid s =
          (Inr (), \<lparr>world = world s1,
                    trace = trace s1 @ [Log ERROR (if e = HttpError then ApiError
                                                   else UnexpectedError e),
                                        Sleep POLL_INTERVAL_SECONDS]\<rparr>)" .
  from pc show "while_True (Suc n) service classifier lid s =
          while_True n service classifier lid
            \<lparr>world = world s1,
             trace = trace s1 @ [Log ERROR (if e = HttpError then ApiError
                                            else UnexpectedError e),
                                 Sleep POLL_INTERVAL_SECONDS]\<rparr>"
    by simp
next
  assume a: "messages_list_execute service query (world s) = (Inl e, w1) \<and> is_Exception e"
  then have tc: "try_cycle service classifier lid s =
      (Inl e, \<lparr>world = w1, trace = trace s @ [MessagesList query]\<rparr>)"
    by (simp add: try_cycle_list_failed)
  from a have ex: "is_Exception e" by simp
  from poll_cycle_caught [OF tc ex]
  show "while_True (Suc n) service classifier lid s =
          while_True n service classifier lid
            \<lparr>world = w1,
             trace = trace s @ [MessagesList query,
                                Log ERROR (if e = HttpError then ApiError
                                           else UnexpectedError e),
                                Sleep POLL_INTERVAL_SECONDS]\<rparr>"
    by simp
qed

theorem cycle_failure_never_ends_the_loop_witness:
  "messages_list_execute (down_service HttpError) query (world start) = (Inl HttpError, ())
   \<and> is_Exception HttpError
   \<and> try_cycle (down_service HttpError) (fake_classifier (Float 0.4)) ''Label_7'' start
       = (Inl HttpError, \<lparr>world = (), trace = [MessagesList query]\<rparr>)
   \<and> poll_cycle (down_service HttpError) (fake_classifier (Float 0.4)) ''Label_7'' start
       = (Inr (), \<lparr>world = (), trace = [MessagesList query, Log ERROR ApiError, Sleep 60]\<rparr>)
   \<and> while_True 2 (down_service HttpError) (fake_classifier (Float 0.4)) ''Label_7'' start
       = (Running, \<lparr>world = (), trace =
            [MessagesList query, Log ERROR ApiError, Sleep 60,
             MessagesList query, Log ERROR ApiError, Sleep 60]\<rparr>)
   \<and> fst (while_True 2 (down_service HttpError) (fake_classifier (Float 0.4)) ''Label_7'' start)
       \<noteq> Returned
   \<and> fst (while_True 1 (down_service BaseException) (fake_classifier (Float 0.4)) ''Label_7''
            start) = Raised BaseException
   \<and> \<not> is_Exception BaseException"
proof -
  let ?svc = "down_service HttpError"
  let ?cl = "fake_classifier (Float 0.4)"
  let ?s1 = "\<lparr>world = (), trace = [MessagesList query]\<rparr>"
  let ?s2 = "\<lparr>world = (), trace = [MessagesList query, Log ERROR ApiError, Sleep 60]\<rparr>"
  let ?s3 = "\<lparr>world = (), trace = [MessagesList query, Log ERROR ApiError, Sleep 60,
                                    MessagesList query]\<rparr>"
  have l: "messages_list_execute ?svc query (world start) = (Inl HttpError, ())"
    by (simp add: down_service_def)
  have t1: "try_cycle ?svc ?cl ''Label_7'' start = (Inl HttpError, ?s1) \<and> is_Exception HttpError"
    by (simp add: try_cycle_def call_def down_service_def start_def)
  have t2: "try_cycle ?svc ?cl ''Label_7'' ?s2 = (Inl HttpError, ?s3) \<and> is_Exception HttpError"
    by (simp add: try_cycle_def call_def down_service_def)
  note A = cycle_failure_never_ends_the_loop [of 1 ?svc ?cl "''Label_7''" start HttpError ?s1]
  note B = cycle_failure_never_ends_the_loop [of 0 ?svc ?cl "''Label_7''" ?s2 HttpError ?s3]
  note C = cycle_failure_never_ends_the_loop [of 2 ?svc ?cl "''Label_7''" start]
  from A [THEN conjunct2, THEN conjunct2, THEN conjunct1] t1
  have a: "poll_cycle ?svc ?cl ''Label_7'' start = (Inr (), ?s2)
         \<and> while_True (Suc 1) ?svc ?cl ''Label_7'' start = while_True 1 ?svc ?cl ''Label_7'' ?s2"
    by (simp add: POLL_INTERVAL_SECONDS_def)
  from B [THEN conjunct2, THEN conjunct2, THEN conjunct1] t2
  have b: "while_True (Suc 0) ?svc ?cl ''Label_7'' ?s2 =
             (Running, \<lparr>world = (), trace =
                [MessagesList query, Log ERROR ApiError, Sleep 60,
                 MessagesList query, Log ERROR ApiError, Sleep 60]\<rparr>)"
    by (simp add: POLL_INTERVAL_SECONDS_def)
  have two: "(2::nat) = Suc 1" by simp
  from a b have w: "while_True 2 ?svc ?cl ''Label_7'' start =
             (Running, \<lparr>world = (), trace =
                [MessagesList query, Log ERROR ApiError, Sleep 60,
                 MessagesList query, Log ERROR ApiError, Sleep 60]\<rparr>)"
    unfolding two by simp
  from C [THEN conjunct1] have c: "fst (while_True 2 ?svc ?cl ''Label_7'' start) \<noteq> Returned" .
  have r: "fst (while_True 1 (down_service BaseException) ?cl ''Label_7'' start)
             = Raised BaseException"
    by (simp add: poll_cycle_def try_cycle_def call_def down_service_def start_def)
  note D = cycle_failure_never_ends_the_loop
             [of 1 "down_service BaseException" ?cl "''Label_7''" start BaseException]
  from D [THEN conjunct2, THEN conjunct1] r have d: "\<not> is_Exception BaseException"
    by (rule mp)
  from l t1 a w c r d show ?thesis by simp
qed

section \<open>The processed label\<close>

lemma ensure_list_failed:
  assumes "labels_list_execute svc (world s) = (Inl e, w1)"
  shows "ensure_processed_label svc s =
           (if e = HttpError
            then (Inr None, \<lparr>world = w1, trace = trace s @ [LabelsList, Log ERROR FailedEnsureLabel]\<rparr>)
            else (Inl e, \<lparr>world = w1, trace = trace s @ [LabelsList]\<rparr>))"
  using assms by (simp add: ensure_processed_label_def call_def log_def)

lemma ensure_create_failed:
  assumes "labels_list_execute svc (world s) = (Inr response, w1)"
      and "find_label (case labels response of None \<Rightarrow> [] | Some ls \<Rightarrow> ls) = None"
      and "labels_create_execute svc
             \<lparr>body_name = PROCESSED_LABEL_NAME, labelListVisibility = ''labelHide'',
              messageListVisibility = ''hide''\<rparr> w1 = (Inl e, w2)"
  shows "ensure_processed_label svc s =
           (if e = HttpError
            then (Inr None,
                  \<lparr>world = w2,
                   trace = trace s @ [LabelsList, Log INFO (CreatingLabel PROCESSED_LABEL_NAME),
                     LabelsCreate \<lparr>body_name = PROCESSED_LABEL_NAME,
                                   labelListVisibility = ''labelHide'',
                                   messageListVisibility = ''hide''\<rparr>,
                     Log ERROR FailedEnsureLabel]\<rparr>)
            else (Inl e,
                  \<lparr>world = w2,
                   trace = trace s @ [LabelsList, Log INFO (CreatingLabel PROCESSED_LABEL_NAME),
                     LabelsCreate \<lparr>body_name = PROCESSED_LABEL_NAME,
                                   labelListVisibility = ''labelHide'',
                                   messageListVisibility = ''hide''\<rparr>]\<rparr>))"
  using assms by (simp add: ensure_processed_label_def call_def log_def Let_def)

lemma poll_gmail_started:
  assumes "get_credentials platform (world s) = (Inr (Some creds), w1)"
      and "build platform creds w1 = (Inr service, w2)"
  shows "poll_gmail cycles platform classifier s =
           (case ensure_processed_label service
                   \<lparr>world = w2, trace = trace s @ [GetCredentials, Build]\<rparr> of
              (Inl e, s3) \<Rightarrow> (Raised e, s3)
            | (Inr None, s3) \<Rightarrow> (Returned, log ERROR CouldNotObtainLabel s3)
            | (Inr (Some processed_label_id), s3) \<Rightarrow>
                if processed_label_id = []
                then (Returned, log ERROR CouldNotObtainLabel s3)
                else while_True cycles service classifier processed_label_id s3)"
  using assms by (simp add: poll_gmail_def call_def)

lemma poll_gmail_label_failed:
  assumes "get_credentials platform (world s) = (Inr (Some creds), w1)"
      and "build platform creds w1 = (Inr service, w2)"
      and "ensure_processed_label service \<lparr>world = w2, trace = trace s @ [GetCredentials, Build]\<rparr>
             = (if e = HttpError then (Inr None, \<lparr>world = w3, trace = trace s @ GetCredentials # Build # evs @ [Log ERROR FailedEnsureLabel]\<rparr>)
                else (Inl e, \<lparr>world = w3, trace = trace s @ GetCredentials # Build # evs\<rparr>))"
  shows "poll_gmail cycles platform classifier s =
           (if e = HttpError
            then (Returned, \<lparr>world = w3, trace = trace s @ GetCredentials # Build # evs
                                @ [Log ERROR FailedEnsureLabel, Log ERROR CouldNotObtainLabel]\<rparr>)
            else (Raised e, \<lparr>world = w3, trace = trace s @ GetCredentials # Build # evs\<rparr>))"
  using assms(3) by (simp add: poll_gmail_started [OF assms(1,2)] log_def)

lemma no_processing_events:
  assumes "set evs \<subseteq> {GetCredentials, Build, LabelsList, LabelsCreate b} \<union> range (Log lvl)"
  shows "fetches evs = [] \<and> mutations evs = [] \<and> inferences evs = []
       \<and> MessagesList q \<notin> set evs \<and> Sleep n \<notin> set evs"
  using assms
proof (induction evs)
  case Nil
  then show ?case
    by (simp add: fetches_def mutations_def inferences_def map_filter_def)
next
  case (Cons ev evs)
  then have "ev \<in> {GetCredentials, Build, LabelsList, LabelsCreate b} \<union> range (Log lvl)"
    and IH: "fetches evs = [] \<and> mutations evs = [] \<and> inferences evs = []
       \<and> MessagesList q \<notin> set evs \<and> Sleep n \<notin> set evs"
    by simp_all
  then show ?case
    by (auto simp: fetches_def mutations_def inferences_def map_filter_def
        fetch_of_def mutation_of_def inference_of_def)
qed

text \<open>
  C7. When the listing of the labels fails, or no label has the reserved name and its
  creation fails, ensure_processed_label produces no label identifier (it returns None for
  an HttpError and raises any other exception), and the run of poll_gmail ends there,
  for any number of cycles allowed: it returns, or raises that exception, having listed,
  fetched, classified and labelled no message and never slept.
\<close>

theorem label_failure_ends_the_run:
  "get_credentials platform (world s) = (Inr (Some creds), w1)
   \<and> build platform creds w1 = (Inr service, w2)
   \<and> (labels_list_execute service w2 = (Inl e, w3)
      \<or> (\<exists>response w.
            labels_list_execute service w2 = (Inr response, w)
          \<and> find_label (case labels response of None \<Rightarrow> [] | Some ls \<Rightarrow> ls) = None
          \<and> labels_create_execute service
               \<lparr>body_name = PROCESSED_LABEL_NAME, labelListVisibility = ''labelHide'',
                messageListVisibility = ''hide''\<rparr> w = (Inl e, w3)))
   \<longrightarrow>
     fst (ensure_processed_label service \<lparr>world = w2, trace = trace s @ [GetCredentials, Build]\<rparr>)
       = (if e = HttpError then Inr None else Inl e)
   \<and> fst (poll_gmail cycles platform classifier s)
       = (if e = HttpError then Returned else Raised e)
   \<and> world (snd (poll_gmail cycles platform classifier s)) = w3
   \<and> fetches (new_events s (snd (poll_gmail cycles platform classifier s))) = []
   \<and> mutations (new_events s (snd (poll_gmail cycles platform classifier s))) = []
   \<and> inferences (new_events s (snd (poll_gmail cycles platform classifier s))) = []
   \<and> MessagesList query \<notin> set (new_events s (snd (poll_gmail cycles platform classifier s)))
   \<and> Sleep POLL_INTERVAL_SECONDS
        \<notin> set (new_events s (snd (poll_gmail cycles platform classifier s)))"
proof
  let ?b = "\<lparr>body_name = PROCESSED_LABEL_NAME, labelListVisibility = ''labelHide'',
                messageListVisibility = ''hide''\<rparr>"
  let ?s2 = "\<lparr>world = w2, trace = trace s @ [GetCredentials, Build]\<rparr>"
  let ?concl = "fst (ensure_processed_label service ?s2)
       = (if e = HttpError then Inr None else Inl e)
   \<and> fst (poll_gmail cycles platform classifier s)
       = (if e = HttpError then Returned else Raised e)
   \<and> world (snd (poll_gmail cycles platform classifier s)) = w3
   \<and> fetches (new_events s (snd (poll_gmail cycles platform classifier s))) = []
   \<and> mutations (new_events s (snd (poll_gmail cycles platform classifier s))) = []
   \<and> inferences (new_events s (snd (poll_gmail cycles platform classifier s))) = []
   \<and> MessagesList query \<notin> set (new_events s (snd (poll_gmail cycles platform classifier s)))
   \<and> Sleep POLL_INTERVAL_SECONDS
        \<notin> set (new_events s (snd (poll_gmail cycles platform classifier s)))"
  assume a: "get_credentials platform (world s) = (Inr (Some creds), w1)
   \<and> build platform creds w1 = (Inr service, w2)
   \<and> (labels_list_execute service w2 = (Inl e, w3)
      \<or> (\<exists>response w.
            labels_list_execute service w2 = (Inr response, w)
          \<and> find_label (case labels response of None \<Rightarrow> [] | Some ls \<Rightarrow> ls) = None
          \<and> labels_create_execute service ?b w = (Inl e, w3)))"
  then have c: "get_credentials platform (world s) = (Inr (Some creds), w1)"
    and b: "build platform creds w1 = (Inr service, w2)" by simp_all
  have "\<exists>evs. set evs \<subseteq> {GetCredentials, Build, LabelsList, LabelsCreate ?b} \<union> range (Log INFO)
        \<and> ensure_processed_label service ?s2
             = (if e = HttpError
                then (Inr None, \<lparr>world = w3, trace = trace s @ GetCredentials # Build # evs
                                                  @ [Log ERROR FailedEnsureLabel]\<rparr>)
                else (Inl e, \<lparr>world = w3, trace = trace s @ GetCredentials # Build # evs\<rparr>))"
  proof -
    from a consider
      (list) "labels_list_execute service w2 = (Inl e, w3)"
    | (create) response w where "labels_list_execute service w2 = (Inr response, w)"
        "find_label (case labels response of None \<Rightarrow> [] | Some ls \<Rightarrow> ls) = None"
        "labels_create_execute service ?b w = (Inl e, w3)"
      by blast
    then show ?thesis
    proof cases
      case list
      then have l: "labels_list_execute service (world ?s2) = (Inl e, w3)" by simp
      have "set [LabelsList] \<subseteq> {GetCredentials, Build, LabelsList, LabelsCreate ?b} \<union> range (Log INFO)
        \<and> ensure_processed_label service ?s2
             = (if e = HttpError
                then (Inr None, \<lparr>world = w3, trace = trace s @ GetCredentials # Build # [LabelsList]
                                                  @ [Log ERROR FailedEnsureLabel]\<rparr>)
                else (Inl e, \<lparr>world = w3, trace = trace s @ GetCredentials # Build # [LabelsList]\<rparr>))"
        by (simp add: ensure_list_failed [OF l])
      then show ?thesis by blast
    next
      case create
      then have l: "labels_list_execute service (world ?s2) = (Inr response, w)" by simp
      let ?evs = "[LabelsList, Log INFO (CreatingLabel PROCESSED_LABEL_NAME), LabelsCreate ?b]"
      have "set ?evs \<subseteq> {GetCredentials, Build, LabelsList, LabelsCreate ?b} \<union> range (Log INFO)
        \<and> ensure_processed_label service ?s2
             = (if e = HttpError
                then (Inr None, \<lparr>world = w3, trace = trace s @ GetCredentials # Build # ?evs
                                                  @ [Log ERROR FailedEnsureLabel]\<rparr>)
                else (Inl e, \<lparr>world = w3, trace = trace s @ GetCredentials # Build # ?evs\<rparr>))"
        by (simp add: ensure_create_failed [OF l create(2,3)])
      then show ?thesis by blast
    qed
  qed
  then obtain evs where
    sub: "set evs \<subseteq> {GetCredentials, Build, LabelsList, LabelsCreate ?b} \<union> range (Log INFO)"
    and en: "ensure_processed_label service ?s2
             = (if e = HttpError
                then (Inr None, \<lparr>world = w3, trace = trace s @ GetCredentials # Build # evs
                                                  @ [Log ERROR FailedEnsureLabel]\<rparr>)
                else (Inl e, \<lparr>world = w3, trace = trace s @ GetCredentials # Build # evs\<rparr>))"
    by blast
  note pg = poll_gmail_label_failed [OF c b en, of cycles classifier]
  have n1: "no_proc (GetCredentials # Build # evs)" if "no_proc = (\<lambda>es.
       fetches es = [] \<and> mutations es = [] \<and> inferences es = []
       \<and> MessagesList query \<notin> set es \<and> Sleep POLL_INTERVAL_SECONDS \<notin> set es)" for no_proc
  proof -
    have "set (GetCredentials # Build # evs)
            \<subseteq> {GetCredentials, Build, LabelsList, LabelsCreate ?b} \<union> range (Log INFO)"
      using sub by auto
    from no_processing_events [OF this] show ?thesis unfolding that by blast
  qed
  have n2: "fetches [Log ERROR FailedEnsureLabel, Log ERROR CouldNotObtainLabel] = []
       \<and> mutations [Log ERROR FailedEnsureLabel, Log ERROR CouldNotObtainLabel] = []
       \<and> inferences [Log ERROR FailedEnsureLabel, Log ERROR CouldNotObtainLabel] = []"
    by simp
  show ?concl
  proof (cases "e = HttpError")
    case True
    with pg have p: "poll_gmail cycles platform classifier s =
       (Returned, \<lparr>world = w3, trace = trace s @ (GetCredentials # Build # evs)
                                @ [Log ERROR FailedEnsureLabel, Log ERROR CouldNotObtainLabel]\<rparr>)"
      by simp
    have ne: "new_events s (snd (poll_gmail cycles platform classifier s)) =
        (GetCredentials # Build # evs) @ [Log ERROR FailedEnsureLabel, Log ERROR CouldNotObtainLabel]"
      unfolding p by (simp add: new_events_def)
    show ?thesis unfolding ne using n1 [OF refl] n2 True en p by (simp del: append.simps)
  next
    case False
    with pg have p: "poll_gmail cycles platform classifier s =
       (Raised e, \<lparr>world = w3, trace = trace s @ (GetCredentials # Build # evs)\<rparr>)"
      by simp
    have ne: "new_events s (snd (poll_gmail cycles platform classifier s)) =
        GetCredentials # Build # evs"
      unfolding p by (simp add: new_events_def)
    show ?thesis unfolding ne using n1 [OF refl] False en p by simp
  qed
qed

theorem label_failure_ends_the_run_witness:
  "get_credentials (fake_platform (down_service HttpError)) (world start)
     = (Inr (Some ''token''), ())
   \<and> build (fake_platform (down_service HttpError)) ''token'' () = (Inr (down_service HttpError), ())
   \<and> labels_list_execute (down_service HttpError) () = (Inl HttpError, ())
   \<and> fst (ensure_processed_label (down_service HttpError)
            \<lparr>world = (), trace = trace start @ [GetCredentials, Build]\<rparr>) = Inr None
   \<and> fst (poll_gmail 5 (fake_platform (down_service HttpError)) (fake_classifier (Float 0.4))
            start) = Returned
   \<and> fetches (new_events start (snd (poll_gmail 5 (fake_platform (down_service HttpError))
                 (fake_classifier (Float 0.4)) start))) = []
   \<and> labels_list_execute (label_store_service True) [] = (Inr \<lparr>labels = Some []\<rparr>, [])
   \<and> find_label [] = None
   \<and> labels_create_execute (label_store_service True)
        \<lparr>body_name = PROCESSED_LABEL_NAME, labelListVisibility = ''labelHide'',
         messageListVisibility = ''hide''\<rparr> [] = (Inl HttpError, [])
   \<and> fst (poll_gmail 5 (fake_platform (label_store_service True))
            \<lparr>run_inference = (\<lambda>texts w. (Inr [], w))\<rparr> \<lparr>world = [], trace = []\<rparr>) = Returned
   \<and> mutations (new_events \<lparr>world = [], trace = []\<rparr>
         (snd (poll_gmail 5 (fake_platform (label_store_service True))
            \<lparr>run_inference = (\<lambda>texts w. (Inr [], w))\<rparr> \<lparr>world = [], trace = []\<rparr>))) = []"
proof -
  let ?b = "\<lparr>body_name = PROCESSED_LABEL_NAME, labelListVisibility = ''labelHide'',
         messageListVisibility = ''hide''\<rparr>"
  let ?cl = "\<lparr>run_inference = (\<lambda>texts (w :: label list). (Inr [], w))\<rparr>"
  let ?s0 = "\<lparr>world = [] :: label list, trace = []\<rparr>"
  have a1: "get_credentials (fake_platform (down_service HttpError)) (world start)
     = (Inr (Some ''token''), ())"
    by (simp add: fake_platform_def)
  have a2: "build (fake_platform (down_service HttpError)) ''token'' ()
     = (Inr (down_service HttpError), ())"
    by (simp add: fake_platform_def)
  have a3: "labels_list_execute (down_service HttpError) () = (Inl HttpError, ())"
    by (simp add: down_service_def)
  have b1: "get_credentials (fake_platform (label_store_service True)) (world ?s0)
     = (Inr (Some ''token''), [])"
    by (simp add: fake_platform_def)
  have b2: "build (fake_platform (label_store_service True)) ''token'' []
     = (Inr (label_store_service True), [])"
    by (simp add: fake_platform_def)
  have b3: "labels_list_execute (label_store_service True) [] = (Inr \<lparr>labels = Some []\<rparr>, [])"
    by (simp add: label_store_service_def)
  have b4: "find_label (case labels \<lparr>labels = Some []\<rparr> of None \<Rightarrow> [] | Some ls \<Rightarrow> ls) = None"
    by simp
  have b5: "labels_create_execute (label_store_service True) ?b [] = (Inl HttpError, [])"
    by (simp add: label_store_service_def)
  from b3 b4 b5 have b6: "\<exists>response w.
            labels_list_execute (label_store_service True) [] = (Inr response, w)
          \<and> find_label (case labels response of None \<Rightarrow> [] | Some ls \<Rightarrow> ls) = None
          \<and> labels_create_execute (label_store_service True) ?b w = (Inl HttpError, [])"
    by blast
  note A = label_failure_ends_the_run
    [of "fake_platform (down_service HttpError)" start "''token''" "()" "down_service HttpError"
        "()" HttpError "()" 5 "fake_classifier (Float 0.4)"]
  note B = label_failure_ends_the_run
    [of "fake_platform (label_store_service True)" ?s0 "''token''" "[]"
        "label_store_service True" "[]" HttpError "[]" 5 ?cl]
  from a1 a2 a3 have ha: "get_credentials (fake_platform (down_service HttpError)) (world start)
       = (Inr (Some ''token''), ())
   \<and> build (fake_platform (down_service HttpError)) ''token'' () = (Inr (down_service HttpError), ())
   \<and> (labels_list_execute (down_service HttpError) () = (Inl HttpError, ())
      \<or> (\<exists>response w.
            labels_list_execute (down_service HttpError) () = (Inr response, w)
          \<and> find_label (case labels response of None \<Rightarrow> [] | Some ls \<Rightarrow> ls) = None
          \<and> labels_create_execute (down_service HttpError) ?b w = (Inl HttpError, ())))"
    by blast
  from b1 b2 b6 have hb: "get_credentials (fake_platform (label_store_service True)) (world ?s0)
       = (Inr (Some ''token''), [])
   \<and> build (fake_platform (label_store_service True)) ''token'' []
       = (Inr (label_store_service True), [])
   \<and> (labels_list_execute (label_store_service True) [] = (Inl HttpError, [])
      \<or> (\<exists>response w.
            labels_list_execute (label_store_service True) [] = (Inr response, w)
          \<and> find_label (case labels response of None \<Rightarrow> [] | Some ls \<Rightarrow> ls) = None
          \<and> labels_create_execute (label_store_service True) ?b w = (Inl HttpError, [])))"
    by blast
  from A ha have ca:
    "fst (ensure_processed_label (down_service HttpError)
            \<lparr>world = (), trace = trace start @ [GetCredentials, Build]\<rparr>) = Inr None
     \<and> fst (poll_gmail 5 (fake_platform (down_service HttpError)) (fake_classifier (Float 0.4))
            start) = Returned
     \<and> fetches (new_events start (snd (poll_gmail 5 (fake_platform (down_service HttpError))
                 (fake_classifier (Float 0.4)) start))) = []"
    by simp
  from B hb have cb:
    "fst (poll_gmail 5 (fake_platform (label_store_service True)) ?cl ?s0) = Returned
     \<and> mutations (new_events ?s0
           (snd (poll_gmail 5 (fake_platform (label_store_service True)) ?cl ?s0))) = []"
    by simp
  from a1 a2 a3 ca b3 b5 cb show ?thesis by simp
qed

lemma find_label_None_iff:
  "find_label ls = None \<longleftrightarrow> (\<forall>l \<in> set ls. label_name l \<noteq> PROCESSED_LABEL_NAME)"
  by (induction ls) auto

lemma find_label_Some:
  "find_label ls = Some i \<Longrightarrow>
     \<exists>l \<in> set ls. label_name l = PROCESSED_LABEL_NAME \<and> label_id l = i"
  by (induction ls) (auto split: if_splits)

lemma find_label_append:
  "find_label (xs @ ys) = (case find_label xs of None \<Rightarrow> find_label ys | Some i \<Rightarrow> Some i)"
  by (induction xs) auto

lemma named_count_zero:
  "find_label ls = None \<Longrightarrow>
     length (filter (\<lambda>l. label_name l = PROCESSED_LABEL_NAME) ls) = 0"
  by (simp add: find_label_None_iff)

lemma ensure_found:
  assumes "labels_list_execute svc (world s) = (Inr response, w1)"
      and "find_label (case labels response of None \<Rightarrow> [] | Some ls \<Rightarrow> ls) = Some i"
  shows "ensure_processed_label svc s =
           (Inr (Some i),
            \<lparr>world = w1,
             trace = trace s @ [LabelsList, Log INFO (FoundExistingLabel PROCESSED_LABEL_NAME)]\<rparr>)"
  using assms by (simp add: ensure_processed_label_def call_def log_def)

lemma ensure_created:
  assumes "labels_list_execute svc (world s) = (Inr response, w1)"
      and "find_label (case labels response of None \<Rightarrow> [] | Some ls \<Rightarrow> ls) = None"
      and "labels_create_execute svc
             \<lparr>body_name = PROCESSED_LABEL_NAME, labelListVisibility = ''labelHide'',
              messageListVisibility = ''hide''\<rparr> w1 = (Inr created, w2)"
  shows "ensure_processed_label svc s =
           (Inr (Some (label_id created)),
            \<lparr>world = w2,
             trace = trace s @ [LabelsList, Log INFO (CreatingLabel PROCESSED_LABEL_NAME),
               LabelsCreate \<lparr>body_name = PROCESSED_LABEL_NAME,
                             labelListVisibility = ''labelHide'',
                             messageListVisibility = ''hide''\<rparr>]\<rparr>)"
  using assms by (simp add: ensure_processed_label_def call_def log_def Let_def)

lemma ensure_creates_only_without_match:
  assumes "LabelsCreate b \<in> set (new_events s (snd (ensure_processed_label svc s)))"
  shows "\<exists>response w1. labels_list_execute svc (world s) = (Inr response, w1)
           \<and> find_label (case labels response of None \<Rightarrow> [] | Some ls \<Rightarrow> ls) = None
           \<and> b = \<lparr>body_name = PROCESSED_LABEL_NAME, labelListVisibility = ''labelHide'',
                   messageListVisibility = ''hide''\<rparr>"
proof -
  obtain r w1 where l: "labels_list_execute svc (world s) = (r, w1)"
    by (cases "labels_list_execute svc (world s)")
  show ?thesis
  proof (cases r)
    case (Inl e)
    with l assms show ?thesis
      by (simp add: ensure_list_failed new_events_def split: if_splits)
  next
    case (Inr response)
    show ?thesis
    proof (cases "find_label (case labels response of None \<Rightarrow> [] | Some ls \<Rightarrow> ls)")
      case (Some i)
      from ensure_found [OF l [unfolded Inr] Some] assms show ?thesis
        by (simp add: new_events_def)
    next
      case None
      obtain c w2 where cr: "labels_create_execute svc
             \<lparr>body_name = PROCESSED_LABEL_NAME, labelListVisibility = ''labelHide'',
              messageListVisibility = ''hide''\<rparr> w1 = (c, w2)"
        by (cases "labels_create_execute svc
             \<lparr>body_name = PROCESSED_LABEL_NAME, labelListVisibility = ''labelHide'',
              messageListVisibility = ''hide''\<rparr> w1")
      have "b = \<lparr>body_name = PROCESSED_LABEL_NAME, labelListVisibility = ''labelHide'',
                   messageListVisibility = ''hide''\<rparr>"
      proof (cases c)
        case (Inl e)
        from ensure_create_failed [OF l [unfolded Inr] None cr [unfolded Inl]] assms
        show ?thesis by (simp add: new_events_def split: if_splits)
      next
        case (Inr created)
        from ensure_created [OF l [unfolded \<open>r = Inr response\<close>] None cr [unfolded Inr]] assms
        show ?thesis by (simp add: new_events_def)
      qed
      with l Inr None show ?thesis by simp
    qed
  qed
qed

lemma ensure_on_label_store:
  assumes list: "\<forall>w. labels_list_execute svc w = (Inr \<lparr>labels = Some (L w)\<rparr>, w)"
      and failed: "\<forall>b w e w'. labels_create_execute svc b w = (Inl e, w') \<longrightarrow> L w' = L w"
      and created: "\<forall>b w l w'. labels_create_execute svc b w = (Inr l, w') \<longrightarrow>
                      label_name l = body_name b \<and> L w' = L w @ [l]"
  shows "(length (filter (\<lambda>l. label_name l = PROCESSED_LABEL_NAME) (L (world s))) \<le> 1 \<longrightarrow>
          length (filter (\<lambda>l. label_name l = PROCESSED_LABEL_NAME)
                    (L (world (snd (ensure_processed_label svc s))))) \<le> 1)
       \<and> (fst (ensure_processed_label svc s) = Inr (Some i) \<longrightarrow>
            find_label (L (world (snd (ensure_processed_label svc s)))) = Some i)"
proof -
  let ?b = "\<lparr>body_name = PROCESSED_LABEL_NAME, labelListVisibility = ''labelHide'',
             messageListVisibility = ''hide''\<rparr>"
  let ?w = "world s"
  from list have l: "labels_list_execute svc (world s) = (Inr \<lparr>labels = Some (L ?w)\<rparr>, ?w)"
    by simp
  show ?thesis
  proof (cases "find_label (L ?w)")
    case (Some j)
    then have f: "find_label (case labels \<lparr>labels = Some (L ?w)\<rparr> of None \<Rightarrow> [] | Some ls \<Rightarrow> ls)
                    = Some j" by simp
    from ensure_found [OF l f] Some show ?thesis by auto
  next
    case None
    then have f: "find_label (case labels \<lparr>labels = Some (L ?w)\<rparr> of None \<Rightarrow> [] | Some ls \<Rightarrow> ls)
                    = None" by simp
    obtain c w2 where cr: "labels_create_execute svc ?b ?w = (c, w2)"
      by (cases "labels_create_execute svc ?b ?w")
    show ?thesis
    proof (cases c)
      case (Inl e)
      with failed cr have same: "L w2 = L ?w" by blast
      from ensure_create_failed [OF l f cr [unfolded Inl]] same show ?thesis
        by (auto split: if_splits)
    next
      case (Inr created)
      with created cr have "label_name created = body_name ?b \<and> L w2 = L ?w @ [created]"
        by blast
      then have n: "label_name created = PROCESSED_LABEL_NAME"
        and app: "L w2 = L ?w @ [created]" by simp_all
      from None have z: "filter (\<lambda>l. label_name l = PROCESSED_LABEL_NAME) (L ?w) = []"
        by (simp add: find_label_None_iff filter_empty_conv)
      have fl: "find_label (L w2) = Some (label_id created)"
        using None n by (simp add: app find_label_append)
      from ensure_created [OF l f cr [unfolded Inr]] app z n fl show ?thesis
        by auto
    qed
  qed
qed

lemma ensure_again:
  assumes list: "\<forall>w. labels_list_execute svc w = (Inr \<lparr>labels = Some (L w)\<rparr>, w)"
      and "find_label (L (world s)) = Some i"
  shows "ensure_processed_label svc s =
           (Inr (Some i),
            \<lparr>world = world s,
             trace = trace s @ [LabelsList, Log INFO (FoundExistingLabel PROCESSED_LABEL_NAME)]\<rparr>)"
proof -
  from list have l: "labels_list_execute svc (world s) = (Inr \<lparr>labels = Some (L (world s))\<rparr>, world s)"
    by simp
  from assms(2) have f: "find_label (case labels \<lparr>labels = Some (L (world s))\<rparr> of
                           None \<Rightarrow> [] | Some ls \<Rightarrow> ls) = Some i" by simp
  from ensure_found [OF l f] show ?thesis .
qed

text \<open>
  C6. ensure_processed_label reuses or creates: when the listed labels contain one whose
  name is exactly the reserved name, the identifier of such a label is returned after the
  list request alone, with no creation. A creation is requested only when the listing
  succeeded with no label of that name, and it asks for the reserved name with both
  visibilities hidden; the identifier of the created label is then returned. On a provider
  that keeps its labels (listing reports them all, a creation adds the created label with
  the requested name and a failed one adds nothing), an account with at most one label of
  the reserved name still has at most one afterwards, and a second call returns the same
  identifier with the list request alone.
\<close>

theorem ensure_processed_label_reuses_or_creates_once:
  "(labels_list_execute service (world s) = (Inr response, w1)
      \<and> l \<in> set (case labels response of None \<Rightarrow> [] | Some ls \<Rightarrow> ls)
      \<and> label_name l = PROCESSED_LABEL_NAME \<longrightarrow>
      (\<exists>l' \<in> set (case labels response of None \<Rightarrow> [] | Some ls \<Rightarrow> ls).
         label_name l' = PROCESSED_LABEL_NAME
       \<and> ensure_processed_label service s =
           (Inr (Some (label_id l')),
            \<lparr>world = w1,
             trace = trace s @ [LabelsList,
                                Log INFO (FoundExistingLabel PROCESSED_LABEL_NAME)]\<rparr>)))
   \<and> (LabelsCreate b \<in> set (new_events s (snd (ensure_processed_label service s))) \<longrightarrow>
        b = \<lparr>body_name = PROCESSED_LABEL_NAME, labelListVisibility = ''labelHide'',
             messageListVisibility = ''hide''\<rparr>
      \<and> (\<exists>response w1.
            labels_list_execute service (world s) = (Inr response, w1)
          \<and> (\<forall>l \<in> set (case labels response of None \<Rightarrow> [] | Some ls \<Rightarrow> ls).
                label_name l \<noteq> PROCESSED_LABEL_NAME)))
   \<and> (labels_list_execute service (world s) = (Inr response, w1)
      \<and> (\<forall>l \<in> set (case labels response of None \<Rightarrow> [] | Some ls \<Rightarrow> ls).
            label_name l \<noteq> PROCESSED_LABEL_NAME)
      \<and> labels_create_execute service
           \<lparr>body_name = PROCESSED_LABEL_NAME, labelListVisibility = ''labelHide'',
            messageListVisibility = ''hide''\<rparr> w1 = (Inr created, w2) \<longrightarrow>
        ensure_processed_label service s =
          (Inr (Some (label_id created)),
           \<lparr>world = w2,
            trace = trace s @ [LabelsList, Log INFO (CreatingLabel PROCESSED_LABEL_NAME),
              LabelsCreate \<lparr>body_name = PROCESSED_LABEL_NAME,
                            labelListVisibility = ''labelHide'',
                            messageListVisibility = ''hide''\<rparr>]\<rparr>))
   \<and> ((\<forall>w. labels_list_execute service w = (Inr \<lparr>labels = Some (L w)\<rparr>, w))
      \<and> (\<forall>b w e w'. labels_create_execute service b w = (Inl e, w') \<longrightarrow> L w' = L w)
      \<and> (\<forall>b w l w'. labels_create_execute service b w = (Inr l, w') \<longrightarrow>
            label_name l = body_name b \<and> L w' = L w @ [l]) \<longrightarrow>
        (length (filter (\<lambda>l. label_name l = PROCESSED_LABEL_NAME) (L (world s))) \<le> 1 \<longrightarrow>
         length (filter (\<lambda>l. label_name l = PROCESSED_LABEL_NAME)
                   (L (world (snd (ensure_processed_label service s))))) \<le> 1)
      \<and> (fst (ensure_processed_label service s) = Inr (Some i) \<longrightarrow>
           ensure_processed_label service (snd (ensure_processed_label service s)) =
             (Inr (Some i),
              \<lparr>world = world (snd (ensure_processed_label service s)),
               trace = trace (snd (ensure_processed_label service s))
                         @ [LabelsList, Log INFO (FoundExistingLabel PROCESSED_LABEL_NAME)]\<rparr>)))"
proof (intro conjI impI)
  let ?ls = "case labels response of None \<Rightarrow> [] | Some ls \<Rightarrow> ls"
  assume a: "labels_list_execute service (world s) = (Inr response, w1)
      \<and> l \<in> set ?ls \<and> label_name l = PROCESSED_LABEL_NAME"
  then have "find_label ?ls \<noteq> None" by (auto simp: find_label_None_iff)
  then obtain j where j: "find_label ?ls = Some j" by blast
  from find_label_Some [OF j] obtain l' where
    l': "l' \<in> set ?ls" "label_name l' = PROCESSED_LABEL_NAME" "label_id l' = j" by blast
  from a have li: "labels_list_execute service (world s) = (Inr response, w1)" by simp
  from ensure_found [OF li j] l'
  show "\<exists>l' \<in> set ?ls. label_name l' = PROCESSED_LABEL_NAME
       \<and> ensure_processed_label service s =
           (Inr (Some (label_id l')),
            \<lparr>world = w1,
             trace = trace s @ [LabelsList,
                                Log INFO (FoundExistingLabel PROCESSED_LABEL_NAME)]\<rparr>)"
    by blast
next
  assume a: "LabelsCreate b \<in> set (new_events s (snd (ensure_processed_label service s)))"
  from ensure_creates_only_without_match [OF a]
  show "b = \<lparr>body_name = PROCESSED_LABEL_NAME, labelListVisibility = ''labelHide'',
             messageListVisibility = ''hide''\<rparr>"
    by blast
  from ensure_creates_only_without_match [OF a]
  show "\<exists>response w1.
            labels_list_execute service (world s) = (Inr response, w1)
          \<and> (\<forall>l \<in> set (case labels response of None \<Rightarrow> [] | Some ls \<Rightarrow> ls).
                label_name l \<noteq> PROCESSED_LABEL_NAME)"
    by (auto simp: find_label_None_iff)
next
  let ?ls = "case labels response of None \<Rightarrow> [] | Some ls \<Rightarrow> ls"
  assume a: "labels_list_execute service (world s) = (Inr response, w1)
      \<and> (\<forall>l \<in> set ?ls. label_name l \<noteq> PROCESSED_LABEL_NAME)
      \<and> labels_create_execute service
           \<lparr>body_name = PROCESSED_LABEL_NAME, labelListVisibility = ''labelHide'',
            messageListVisibility = ''hide''\<rparr> w1 = (Inr created, w2)"
  then have li: "labels_list_execute service (world s) = (Inr response, w1)"
    and n: "find_label ?ls = None"
    and cr: "labels_create_execute service
           \<lparr>body_name = PROCESSED_LABEL_NAME, labelListVisibility = ''labelHide'',
            messageListVisibility = ''hide''\<rparr> w1 = (Inr created, w2)"
    by (simp_all add: find_label_None_iff)
  from ensure_created [OF li n cr]
  show "ensure_processed_label service s =
          (Inr (Some (label_id created)),
           \<lparr>world = w2,
            trace = trace s @ [LabelsList, Log INFO (CreatingLabel PROCESSED_LABEL_NAME),
              LabelsCreate \<lparr>body_name = PROCESSED_LABEL_NAME,
                            labelListVisibility = ''labelHide'',
                            messageListVisibility = ''hide''\<rparr>]\<rparr>)" .
next
  assume a: "(\<forall>w. labels_list_execute service w = (Inr \<lparr>labels = Some (L w)\<rparr>, w))
      \<and> (\<forall>b w e w'. labels_create_execute service b w = (Inl e, w') \<longrightarrow> L w' = L w)
      \<and> (\<forall>b w l w'. labels_create_execute service b w = (Inr l, w') \<longrightarrow>
            label_name l = body_name b \<and> L w' = L w @ [l])"
    and b: "length (filter (\<lambda>l. label_name l = PROCESSED_LABEL_NAME) (L (world s))) \<le> 1"
  from a have h1: "\<forall>w. labels_list_execute service w = (Inr \<lparr>labels = Some (L w)\<rparr>, w)"
    and h2: "\<forall>b w e w'. labels_create_execute service b w = (Inl e, w') \<longrightarrow> L w' = L w"
    and h3: "\<forall>b w l w'. labels_create_execute service b w = (Inr l, w') \<longrightarrow>
            label_name l = body_name b \<and> L w' = L w @ [l]"
    by blast+
  from ensure_on_label_store [OF h1 h2 h3, of s] b
  show "length (filter (\<lambda>l. label_name l = PROCESSED_LABEL_NAME)
                   (L (world (snd (ensure_processed_label service s))))) \<le> 1"
    by blast
next
  assume a: "(\<forall>w. labels_list_execute service w = (Inr \<lparr>labels = Some (L w)\<rparr>, w))
      \<and> (\<forall>b w e w'. labels_create_execute service b w = (Inl e, w') \<longrightarrow> L w' = L w)
      \<and> (\<forall>b w l w'. labels_create_execute service b w = (Inr l, w') \<longrightarrow>
            label_name l = body_name b \<and> L w' = L w @ [l])"
    and b: "fst (ensure_processed_label service s) = Inr (Some i)"
  from a have h1: "\<forall>w. labels_list_execute service w = (Inr \<lparr>labels = Some (L w)\<rparr>, w)"
    and h2: "\<forall>b w e w'. labels_create_execute service b w = (Inl e, w') \<longrightarrow> L w' = L w"
    and h3: "\<forall>b w l w'. labels_create_execute service b w = (Inr l, w') \<longrightarrow>
            label_name l = body_name b \<and> L w' = L w @ [l]"
    by blast+
  from ensure_on_label_store [OF h1 h2 h3, of s i] b
  have "find_label (L (world (snd (ensure_processed_label service s)))) = Some i"
    by blast
  from ensure_again [OF h1 this]
  show "ensure_processed_label service (snd (ensure_processed_label service s)) =
             (Inr (Some i),
              \<lparr>world = world (snd (ensure_processed_label service s)),
               trace = trace (snd (ensure_processed_label service s))
                         @ [LabelsList, Log INFO (FoundExistingLabel PROCESSED_LABEL_NAME)]\<rparr>)" .
qed

theorem ensure_processed_label_reuses_or_creates_once_witness:
  "ensure_processed_label (label_store_service False)
     \<lparr>world = [\<lparr>label_id = ''INBOX'', label_name = ''INBOX''\<rparr>,
               \<lparr>label_id = ''Label_7'', label_name = ''ML_PROCESSED''\<rparr>], trace = []\<rparr>
     = (Inr (Some ''Label_7''),
        \<lparr>world = [\<lparr>label_id = ''INBOX'', label_name = ''INBOX''\<rparr>,
                  \<lparr>label_id = ''Label_7'', label_name = ''ML_PROCESSED''\<rparr>],
         trace = [LabelsList, Log INFO (FoundExistingLabel ''ML_PROCESSED'')]\<rparr>)
   \<and> ensure_processed_label (label_store_service False)
       \<lparr>world = [\<lparr>label_id = ''INBOX'', label_name = ''INBOX''\<rparr>], trace = []\<rparr>
     = (Inr (Some ''Label_I''),
        \<lparr>world = [\<lparr>label_id = ''INBOX'', label_name = ''INBOX''\<rparr>,
                  \<lparr>label_id = ''Label_I'', label_name = ''ML_PROCESSED''\<rparr>],
         trace = [LabelsList, Log INFO (CreatingLabel ''ML_PROCESSED''),
                  LabelsCreate \<lparr>body_name = ''ML_PROCESSED'', labelListVisibility = ''labelHide'',
                                messageListVisibility = ''hide''\<rparr>]\<rparr>)
   \<and> LabelsCreate \<lparr>body_name = ''ML_PROCESSED'', labelListVisibility = ''labelHide'',
                     messageListVisibility = ''hide''\<rparr>
       \<in> set (new_events \<lparr>world = [\<lparr>label_id = ''INBOX'', label_name = ''INBOX''\<rparr>], trace = []\<rparr>
             (snd (ensure_processed_label (label_store_service False)
                \<lparr>world = [\<lparr>label_id = ''INBOX'', label_name = ''INBOX''\<rparr>], trace = []\<rparr>)))
   \<and> (\<forall>w. labels_list_execute (label_store_service False) w = (Inr \<lparr>labels = Some w\<rparr>, w))
   \<and> length (filter (\<lambda>l. label_name l = PROCESSED_LABEL_NAME)
         (world (snd (ensure_processed_label (label_store_service False)
            \<lparr>world = [\<lparr>label_id = ''INBOX'', label_name = ''INBOX''\<rparr>], trace = []\<rparr>)))) \<le> 1
   \<and> ensure_processed_label (label_store_service False)
       (snd (ensure_processed_label (label_store_service False)
          \<lparr>world = [\<lparr>label_id = ''INBOX'', label_name = ''INBOX''\<rparr>], trace = []\<rparr>))
     = (Inr (Some ''Label_I''),
        \<lparr>world = [\<lparr>label_id = ''INBOX'', label_name = ''INBOX''\<rparr>,
                  \<lparr>label_id = ''Label_I'', label_name = ''ML_PROCESSED''\<rparr>],
         trace = [LabelsList, Log INFO (CreatingLabel ''ML_PROCESSED''),
                  LabelsCreate \<lparr>body_name = ''ML_PROCESSED'', labelListVisibility = ''labelHide'',
                                messageListVisibility = ''hide''\<rparr>,
                  LabelsList, Log INFO (FoundExistingLabel ''ML_PROCESSED'')]\<rparr>)"
proof -
  let ?svc = "label_store_service False"
  let ?inbox = "\<lparr>label_id = ''INBOX'', label_name = ''INBOX''\<rparr>"
  let ?proc = "\<lparr>label_id = ''Label_7'', label_name = ''ML_PROCESSED''\<rparr>"
  let ?new = "\<lparr>label_id = ''Label_I'', label_name = ''ML_PROCESSED''\<rparr>"
  let ?body = "\<lparr>body_name = PROCESSED_LABEL_NAME, labelListVisibility = ''labelHide'',
               messageListVisibility = ''hide''\<rparr>"
  let ?sA = "\<lparr>world = [?inbox, ?proc], trace = []\<rparr>"
  let ?sB = "\<lparr>world = [?inbox], trace = []\<rparr>"
  note A = ensure_processed_label_reuses_or_creates_once
    [of ?svc ?sA "\<lparr>labels = Some [?inbox, ?proc]\<rparr>" "[?inbox, ?proc]" ?proc]
  note B = ensure_processed_label_reuses_or_creates_once
    [of ?svc ?sB "\<lparr>labels = Some [?inbox]\<rparr>" "[?inbox]" _ ?body ?new "[?inbox, ?new]"
        "\<lambda>w. w" "''Label_I''"]
  have ha: "labels_list_execute ?svc (world ?sA) = (Inr \<lparr>labels = Some [?inbox, ?proc]\<rparr>, [?inbox, ?proc])
      \<and> ?proc \<in> set (case labels \<lparr>labels = Some [?inbox, ?proc]\<rparr> of None \<Rightarrow> [] | Some ls \<Rightarrow> ls)
      \<and> label_name ?proc = PROCESSED_LABEL_NAME"
    by (simp add: label_store_service_def PROCESSED_LABEL_NAME_def)
  from A [THEN conjunct1] ha
  have ca: "\<exists>l' \<in> set (case labels \<lparr>labels = Some [?inbox, ?proc]\<rparr> of None \<Rightarrow> [] | Some ls \<Rightarrow> ls).
         label_name l' = PROCESSED_LABEL_NAME
       \<and> ensure_processed_label ?svc ?sA =
           (Inr (Some (label_id l')),
            \<lparr>world = [?inbox, ?proc],
             trace = trace ?sA @ [LabelsList,
                                Log INFO (FoundExistingLabel PROCESSED_LABEL_NAME)]\<rparr>)"
    by (rule mp)
  then have ra: "ensure_processed_label ?svc ?sA =
     (Inr (Some ''Label_7''),
      \<lparr>world = [?inbox, ?proc],
       trace = [LabelsList, Log INFO (FoundExistingLabel ''ML_PROCESSED'')]\<rparr>)"
    by (auto simp: PROCESSED_LABEL_NAME_def)
  have hb: "labels_list_execute ?svc (world ?sB) = (Inr \<lparr>labels = Some [?inbox]\<rparr>, [?inbox])
      \<and> (\<forall>l \<in> set (case labels \<lparr>labels = Some [?inbox]\<rparr> of None \<Rightarrow> [] | Some ls \<Rightarrow> ls).
            label_name l \<noteq> PROCESSED_LABEL_NAME)
      \<and> labels_create_execute ?svc ?body [?inbox] = (Inr ?new, [?inbox, ?new])"
    by (simp add: label_store_service_def PROCESSED_LABEL_NAME_def Let_def)
  from B [THEN conjunct2, THEN conjunct2, THEN conjunct1] hb
  have cb: "ensure_processed_label ?svc ?sB =
          (Inr (Some (label_id ?new)),
           \<lparr>world = [?inbox, ?new],
            trace = trace ?sB @ [LabelsList, Log INFO (CreatingLabel PROCESSED_LABEL_NAME),
              LabelsCreate ?body]\<rparr>)"
    by (rule mp)
  have hc: "LabelsCreate ?body \<in> set (new_events ?sB (snd (ensure_processed_label ?svc ?sB)))"
    unfolding cb by (simp add: new_events_def)
  have hd: "(\<forall>w. labels_list_execute ?svc w = (Inr \<lparr>labels = Some ((\<lambda>w. w) w)\<rparr>, w))
      \<and> (\<forall>b w e w'. labels_create_execute ?svc b w = (Inl e, w') \<longrightarrow> (\<lambda>w. w) w' = (\<lambda>w. w) w)
      \<and> (\<forall>b w l w'. labels_create_execute ?svc b w = (Inr l, w') \<longrightarrow>
            label_name l = body_name b \<and> (\<lambda>w. w) w' = (\<lambda>w. w) w @ [l])"
    by (auto simp: label_store_service_def Let_def)
  from B [THEN conjunct2, THEN conjunct2, THEN conjunct2] hd
  have cd: "(length (filter (\<lambda>l. label_name l = PROCESSED_LABEL_NAME) ((\<lambda>w. w) (world ?sB))) \<le> 1 \<longrightarrow>
         length (filter (\<lambda>l. label_name l = PROCESSED_LABEL_NAME)
                   ((\<lambda>w. w) (world (snd (ensure_processed_label ?svc ?sB))))) \<le> 1)
      \<and> (fst (ensure_processed_label ?svc ?sB) = Inr (Some ''Label_I'') \<longrightarrow>
           ensure_processed_label ?svc (snd (ensure_processed_label ?svc ?sB)) =
             (Inr (Some ''Label_I''),
              \<lparr>world = world (snd (ensure_processed_label ?svc ?sB)),
               trace = trace (snd (ensure_processed_label ?svc ?sB))
                         @ [LabelsList, Log INFO (FoundExistingLabel PROCESSED_LABEL_NAME)]\<rparr>))"
    by (rule mp)
  have le: "length (filter (\<lambda>l. label_name l = PROCESSED_LABEL_NAME) (world ?sB)) \<le> 1"
    by (simp add: PROCESSED_LABEL_NAME_def)
  from cd le have inv: "length (filter (\<lambda>l. label_name l = PROCESSED_LABEL_NAME)
                   (world (snd (ensure_processed_label ?svc ?sB)))) \<le> 1"
    by simp
  have fs: "fst (ensure_processed_label ?svc ?sB) = Inr (Some ''Label_I'')"
    unfolding cb by simp
  from cd fs have again: "ensure_processed_label ?svc (snd (ensure_processed_label ?svc ?sB)) =
             (Inr (Some ''Label_I''),
              \<lparr>world = world (snd (ensure_processed_label ?svc ?sB)),
               trace = trace (snd (ensure_processed_label ?svc ?sB))
                         @ [LabelsList, Log INFO (FoundExistingLabel PROCESSED_LABEL_NAME)]\<rparr>)"
    by blast
  have l: "\<forall>w. labels_list_execute ?svc w = (Inr \<lparr>labels = Some w\<rparr>, w)"
    using hd by simp
  have cb': "ensure_processed_label ?svc ?sB =
     (Inr (Some ''Label_I''),
      \<lparr>world = [?inbox, ?new],
       trace = [LabelsList, Log INFO (CreatingLabel ''ML_PROCESSED''),
                LabelsCreate \<lparr>body_name = ''ML_PROCESSED'', labelListVisibility = ''labelHide'',
                              messageListVisibility = ''hide''\<rparr>]\<rparr>)"
    using cb by (simp add: PROCESSED_LABEL_NAME_def)
  have again': "ensure_processed_label ?svc (snd (ensure_processed_label ?svc ?sB)) =
     (Inr (Some ''Label_I''),
      \<lparr>world = [?inbox, ?new],
       trace = [LabelsList, Log INFO (CreatingLabel ''ML_PROCESSED''),
                LabelsCreate \<lparr>body_name = ''ML_PROCESSED'', labelListVisibility = ''labelHide'',
                              messageListVisibility = ''hide''\<rparr>,
                LabelsList, Log INFO (FoundExistingLabel ''ML_PROCESSED'')]\<rparr>)"
    using again unfolding cb' by (simp add: PROCESSED_LABEL_NAME_def)
  have hc': "LabelsCreate \<lparr>body_name = ''ML_PROCESSED'', labelListVisibility = ''labelHide'',
                     messageListVisibility = ''hide''\<rparr>
       \<in> set (new_events ?sB (snd (ensure_processed_label ?svc ?sB)))"
    using hc by (simp add: PROCESSED_LABEL_NAME_def)
  from ra cb' hc' l inv again' show ?thesis by (intro conjI)
qed

section \<open>What a batch contains and what ends it\<close>




section \<open>A message whose label mutation failed\<close>










lemma mutations_cycle_events [simp]:
  "mutations (MessagesList q # es) = mutations es"
  "mutations (Sleep n # es) = mutations es"
  by (simp_all add: mutations_def mutation_of_def map_filter_def)








end
